theory Spec2Isabelle
  imports Complex_Main "HOL-Library.Char_ord" "HOL-Library.List_Lexorder" "HOL-Library.Log_Nat"
begin

chapter \<open>Definitions: the capture, cache and orchestration pipeline\<close>

section \<open>Backoff retrier (src/retry.ts)\<close>

text \<open>
  \<^verbatim>\<open>retryWithBackoff(fn, opts)\<close> runs \<^verbatim>\<open>fn\<close> up to \<^verbatim>\<open>attempts\<close> times.
  The operation and the observer are caller-supplied callbacks: each takes the state of
  the world and returns it changed. An operation either returns a value (\<open>Inr\<close>) or
  throws (\<open>Inl\<close>); the observer \<^verbatim>\<open>onRetry\<close> returns nothing, and the result
  \<open>Some e\<close> stands for an observer that throws \<open>e\<close>. The trace lists, in order, what
  the retrier did. JavaScript numbers are modelled by integers (the attempt counter) and
  rationals (the delays, whose double rounding is not modelled); \<^verbatim>\<open>Math.random()\<close> is
  the parameter \<open>rnd\<close>, indexed by the attempt. An absent option is \<open>None\<close>.
\<close>

datatype ('e, 'a) event =
    Invoked "'e + 'a"
  | Notified 'e int
  | Slept rat

record ('e, 's) RetryOptions =
  attempts :: "int option"
  baseDelayMs :: "rat option"
  maxDelayMs :: "rat option"
  onRetry :: "('e \<Rightarrow> int \<Rightarrow> 's \<Rightarrow> 'e option \<times> 's) option"

definition DEFAULT_attempts :: int where "DEFAULT_attempts = 3"
definition DEFAULT_baseDelayMs :: rat where "DEFAULT_baseDelayMs = 1000"
definition DEFAULT_maxDelayMs :: rat where "DEFAULT_maxDelayMs = 10000"

text \<open>The delay slept after the failed attempt number \<open>attempt\<close>.\<close>

definition backoff_delay :: "rat \<Rightarrow> rat \<Rightarrow> rat \<Rightarrow> int \<Rightarrow> rat" where
  "backoff_delay base maxd random attempt =
     (let exponentialDelay = base * 2 ^ nat (attempt - 1);
          jitter = random * base
      in min (exponentialDelay + jitter) maxd)"

text \<open>
  The \<^verbatim>\<open>for\<close> loop. \<open>lastError\<close> is \<open>None\<close> while it is still \<^verbatim>\<open>undefined\<close>;
  a result \<open>Inl x\<close> is \<^verbatim>\<open>throw x\<close>. The observer runs inside the \<^verbatim>\<open>catch\<close>
  block, so what it throws leaves the loop at once.
\<close>

function retry_loop ::
  "('s \<Rightarrow> ('e + 'a) \<times> 's) \<Rightarrow> ('e \<Rightarrow> int \<Rightarrow> 's \<Rightarrow> 'e option \<times> 's) option \<Rightarrow>
   int \<Rightarrow> rat \<Rightarrow> rat \<Rightarrow> (int \<Rightarrow> rat) \<Rightarrow>
   int \<Rightarrow> 'e option \<Rightarrow> 's \<Rightarrow> ('e, 'a) event list \<Rightarrow>
   ('e option + 'a) \<times> 's \<times> ('e, 'a) event list" where
  "retry_loop fn obs n base maxd rnd attempt lastError s tr =
     (if attempt \<le> n then
        (case fn s of
           (Inr v, s1) \<Rightarrow> (Inr v, s1, tr @ [Invoked (Inr v)])
         | (Inl error, s1) \<Rightarrow>
             (if attempt = n then (Inl (Some error), s1, tr @ [Invoked (Inl error)])
              else
                (case obs of
                   None \<Rightarrow>
                     retry_loop fn obs n base maxd rnd (attempt + 1) (Some error) s1
                       (tr @ [Invoked (Inl error),
                              Slept (backoff_delay base maxd (rnd attempt) attempt)])
                 | Some cb \<Rightarrow>
                     (case cb error attempt s1 of
                        (Some thrown, s2) \<Rightarrow>
                          (Inl (Some thrown), s2,
                           tr @ [Invoked (Inl error), Notified error attempt])
                      | (None, s2) \<Rightarrow>
                          retry_loop fn obs n base maxd rnd (attempt + 1) (Some error) s2
                            (tr @ [Invoked (Inl error), Notified error attempt,
                                   Slept (backoff_delay base maxd (rnd attempt) attempt)])))))
      else (Inl lastError, s, tr))"
  by pat_completeness auto
termination
  by (relation "measure (\<lambda>(fn, obs, n, base, maxd, rnd, attempt, lastError, s, tr).
        nat (n + 1 - attempt))") auto

declare retry_loop.simps [simp del]

definition retryWithBackoff ::
  "('s \<Rightarrow> ('e + 'a) \<times> 's) \<Rightarrow> ('e, 's) RetryOptions \<Rightarrow> (int \<Rightarrow> rat) \<Rightarrow> 's \<Rightarrow>
   ('e option + 'a) \<times> 's \<times> ('e, 'a) event list" where
  "retryWithBackoff fn opts rnd s =
     retry_loop fn (onRetry opts)
       (case attempts opts of None \<Rightarrow> DEFAULT_attempts | Some n \<Rightarrow> n)
       (case baseDelayMs opts of None \<Rightarrow> DEFAULT_baseDelayMs | Some b \<Rightarrow> b)
       (case maxDelayMs opts of None \<Rightarrow> DEFAULT_maxDelayMs | Some m \<Rightarrow> m)
       rnd 1 None s []"

text \<open>The invocations of the operation recorded in a trace, oldest first.\<close>

fun invocations :: "('e, 'a) event list \<Rightarrow> ('e + 'a) list" where
  "invocations [] = []"
| "invocations (Invoked r # tr) = r # invocations tr"
| "invocations (_ # tr) = invocations tr"

text \<open>An operation that throws on every invocation, whatever the state.\<close>

definition always_fails :: "('s \<Rightarrow> ('e + 'a) \<times> 's) \<Rightarrow> bool" where
  "always_fails fn = (\<forall>s. \<exists>e. fst (fn s) = Inl e)"

text \<open>An observer that is absent, or returns normally whenever it is called.\<close>

definition observer_returns :: "('e \<Rightarrow> int \<Rightarrow> 's \<Rightarrow> 'e option \<times> 's) option \<Rightarrow> bool" where
  "observer_returns obs = (\<forall>cb e a s. obs = Some cb \<longrightarrow> fst (cb e a s) = None)"

text \<open>
  Concrete inputs: an operation whose \<open>k\<close>-th invocation throws the number \<open>k\<close>
  (counting from 0, the state being the counter), an observer that returns and one
  that throws 99.
\<close>

definition failing_op :: "nat \<Rightarrow> (nat + unit) \<times> nat" where
  "failing_op s = (Inl s, Suc s)"

definition quiet_observer :: "nat \<Rightarrow> int \<Rightarrow> nat \<Rightarrow> nat option \<times> nat" where
  "quiet_observer e a s = (None, s)"

definition throwing_observer :: "nat \<Rightarrow> int \<Rightarrow> nat \<Rightarrow> nat option \<times> nat" where
  "throwing_observer e a s = (Some 99, s)"

definition no_jitter :: "int \<Rightarrow> rat" where
  "no_jitter a = 0"

definition three_attempts ::
  "(nat \<Rightarrow> int \<Rightarrow> nat \<Rightarrow> nat option \<times> nat) \<Rightarrow> (nat, nat) RetryOptions" where
  "three_attempts cb =
     \<lparr>attempts = Some 3, baseDelayMs = None, maxDelayMs = None, onRetry = Some cb\<rparr>"

section \<open>POSIX paths and the file system (node:path, node:fs)\<close>

text \<open>
  The cache addresses its files through \<^verbatim>\<open>path.join\<close> and \<^verbatim>\<open>path.resolve\<close>.
  They are modelled after Node's POSIX implementation: a path is cut at every \<open>/\<close>,
  empty and \<open>.\<close> segments are dropped, and \<open>..\<close> removes the segment before it.
  A buffer is a list of bytes, and HOL's characters are bytes.
\<close>

type_synonym buffer = string

fun splitOn :: "char \<Rightarrow> string \<Rightarrow> string list" where
  "splitOn c [] = [[]]"
| "splitOn c (x # xs) =
     (if x = c then [] # splitOn c xs
      else (case splitOn c xs of [] \<Rightarrow> [[x]] | s # ss \<Rightarrow> (x # s) # ss))"

fun joinWith :: "string \<Rightarrow> string list \<Rightarrow> string" where
  "joinWith sep [] = []"
| "joinWith sep [s] = s"
| "joinWith sep (s # t # ss) = s @ sep @ joinWith sep (t # ss)"

definition isAbsolute :: "string \<Rightarrow> bool" where
  "isAbsolute p = (case p of [] \<Rightarrow> False | c # _ \<Rightarrow> c = CHR ''/'')"

text \<open>
  \<^verbatim>\<open>normalizeString\<close>: the stack holds the segments kept so far, the last one first.
\<close>

fun normalizeSegments :: "bool \<Rightarrow> string list \<Rightarrow> string list \<Rightarrow> string list" where
  "normalizeSegments allowAboveRoot stack [] = rev stack"
| "normalizeSegments allowAboveRoot stack (seg # segs) =
     (if seg = [] \<or> seg = ''.'' then normalizeSegments allowAboveRoot stack segs
      else if seg = ''..'' then
        (case stack of
           [] \<Rightarrow> normalizeSegments allowAboveRoot (if allowAboveRoot then [''..''] else []) segs
         | recent # rest \<Rightarrow>
             (if recent = ''..''
              then normalizeSegments allowAboveRoot
                     (if allowAboveRoot then ''..'' # stack else stack) segs
              else normalizeSegments allowAboveRoot rest segs))
      else normalizeSegments allowAboveRoot (seg # stack) segs)"

definition normalizeString :: "string \<Rightarrow> bool \<Rightarrow> string" where
  "normalizeString path allowAboveRoot =
     joinWith ''/'' (normalizeSegments allowAboveRoot [] (splitOn CHR ''/'' path))"

definition normalizePath :: "string \<Rightarrow> string" where
  "normalizePath path =
     (if path = [] then ''.''
      else
        (let isAbs = isAbsolute path;
             trailingSeparator = (last path = CHR ''/'');
             p = normalizeString path (\<not> isAbs)
         in if p = [] then (if isAbs then ''/'' else if trailingSeparator then ''./'' else ''.'')
            else (if isAbs then ''/'' else []) @ p @ (if trailingSeparator then ''/'' else [])))"

text \<open>\<^verbatim>\<open>path.join(...args)\<close>: the non-empty arguments, joined by \<open>/\<close> and normalized.\<close>

definition join :: "string list \<Rightarrow> string" where
  "join args =
     (case filter (\<lambda>a. a \<noteq> []) args of
        [] \<Rightarrow> ''.''
      | a # as \<Rightarrow> normalizePath (joinWith ''/'' (a # as)))"

text \<open>
  \<^verbatim>\<open>path.resolve(...args)\<close> reads its arguments from the right and stops at the first
  absolute one; the working directory \<open>cwd\<close> comes last.
\<close>

fun resolveLoop :: "string list \<Rightarrow> string \<Rightarrow> string \<times> bool" where
  "resolveLoop [] resolvedPath = (resolvedPath, False)"
| "resolveLoop (path # paths) resolvedPath =
     (if path = [] then resolveLoop paths resolvedPath
      else if isAbsolute path then (path @ ''/'' @ resolvedPath, True)
      else resolveLoop paths (path @ ''/'' @ resolvedPath))"

definition resolve :: "string \<Rightarrow> string list \<Rightarrow> string" where
  "resolve cwd args =
     (case resolveLoop (rev args @ [cwd]) [] of
        (resolvedPath, resolvedAbsolute) \<Rightarrow>
          (let p = normalizeString resolvedPath (\<not> resolvedAbsolute)
           in if resolvedAbsolute then ''/'' @ p
              else if p \<noteq> [] then p else ''.''))"

text \<open>
  The file system: regular files with their contents, and directories. A file can be
  written where its parent directory exists; \<^verbatim>\<open>existsSync\<close> never throws. The errors
  are those of the file system, and the \<^verbatim>\<open>TypeError\<close> with code
  \<^verbatim>\<open>ERR_INVALID_ARG_TYPE\<close> that \<^verbatim>\<open>path.resolve\<close> throws for an argument that is not
  a string; it carries the argument's name.
\<close>

record fs =
  files :: "string \<rightharpoonup> buffer"
  dirs :: "string set"

datatype io_error =
  ENOENT string | EISDIR string | ENOTDIR string | EEXIST string | ERR_INVALID_ARG_TYPE string

definition parent :: "string \<Rightarrow> string" where
  "parent p =
     (let d = joinWith ''/'' (butlast (splitOn CHR ''/'' p))
      in if d = [] then (if isAbsolute p then ''/'' else ''.'') else d)"

definition existsSync :: "fs \<Rightarrow> string \<Rightarrow> bool" where
  "existsSync t p = (files t p \<noteq> None \<or> p \<in> dirs t)"

definition readFile :: "fs \<Rightarrow> string \<Rightarrow> io_error + buffer" where
  "readFile t p =
     (case files t p of
        Some data \<Rightarrow> Inr data
      | None \<Rightarrow> Inl (if p \<in> dirs t then EISDIR p else ENOENT p))"

definition writeFile :: "fs \<Rightarrow> string \<Rightarrow> buffer \<Rightarrow> io_error + fs" where
  "writeFile t p data =
     (if p \<in> dirs t then Inl (EISDIR p)
      else if files t (parent p) \<noteq> None then Inl (ENOTDIR p)
      else if parent p \<notin> dirs t then Inl (ENOENT p)
      else Inr (t\<lparr>files := (files t)(p \<mapsto> data)\<rparr>))"

text \<open>
  \<^verbatim>\<open>mkdir(dir, { recursive: true })\<close> creates the directory and its missing
  ancestors; it fails where a regular file is in the way.
\<close>

fun ancestorsFrom :: "string \<Rightarrow> string list \<Rightarrow> string list" where
  "ancestorsFrom prefix [] = []"
| "ancestorsFrom prefix (seg # segs) =
     (let p = (if prefix = ''/'' then prefix @ seg else prefix @ ''/'' @ seg)
      in p # ancestorsFrom p segs)"

definition ancestors :: "string \<Rightarrow> string list" where
  "ancestors p = ''/'' # ancestorsFrom ''/'' (filter (\<lambda>s. s \<noteq> []) (splitOn CHR ''/'' p))"

definition mkdirRecursive :: "fs \<Rightarrow> string \<Rightarrow> io_error + fs" where
  "mkdirRecursive t p =
     (case filter (\<lambda>a. files t a \<noteq> None) (ancestors p) of
        [] \<Rightarrow> Inr (t\<lparr>dirs := dirs t \<union> set (ancestors p)\<rparr>)
      | a # _ \<Rightarrow> Inl (if a = p then EEXIST p else ENOTDIR p))"

section \<open>Content cache (src/cache.ts)\<close>

record ViewportConfig =
  name :: string
  width :: int
  height :: int

record CacheManifestEntry =
  url :: string
  viewport :: ViewportConfig
  timestamp :: int
  filePath :: string

text \<open>
  The manifest's \<^verbatim>\<open>entries\<close> is an object of JavaScript, held in two fields of the
  cache. \<open>manifest\<close> lists its own properties in the order \<^verbatim>\<open>JSON.stringify\<close> and
  \<^verbatim>\<open>Object.keys\<close> enumerate them: the array indices in ascending order, then the
  other keys in the order of their creation. \<open>entriesPrototype\<close> is its prototype:
  \<open>None\<close> for \<^verbatim>\<open>Object.prototype\<close>, which every object literal and every object made
  by \<^verbatim>\<open>JSON.parse\<close> has, and \<open>Some e\<close> once an assignment to the key
  \<^verbatim>\<open>__proto__\<close> has made the entry \<open>e\<close> the prototype. The other private fields of
  the class are the other fields of the record.
\<close>

type_synonym CacheManifest = "(string \<times> CacheManifestEntry) list"

record ScreenshotCache =
  cacheDir :: string
  manifest :: CacheManifest
  entriesPrototype :: "CacheManifestEntry option"
  disabled :: bool

definition DEFAULT_CACHE_DIR :: string where "DEFAULT_CACHE_DIR = ''./looker-cache''"
definition MANIFEST_FILE :: string where "MANIFEST_FILE = ''manifest.json''"

text \<open>
  An array index is the decimal numeral, without a leading zero, of an integer below
  \<open>2\<^sup>3\<^sup>2 - 1\<close>.
\<close>

definition isDigit :: "char \<Rightarrow> bool" where
  "isDigit c = (c \<in> set ''0123456789'')"

definition indexValue :: "string \<Rightarrow> nat" where
  "indexValue s = foldl (\<lambda>n c. 10 * n + (of_char c - 48)) 0 s"

definition isArrayIndex :: "string \<Rightarrow> bool" where
  "isArrayIndex s =
     (case s of
        [] \<Rightarrow> False
      | c # cs \<Rightarrow>
          list_all isDigit s \<and> (if c = CHR ''0'' then cs = [] else True) \<and>
          indexValue s < 4294967295)"

text \<open>
  Defining an own property: an existing key keeps its place, a new array index goes
  before the first key that is no smaller index, any other new key goes last.
  \<^verbatim>\<open>delete\<close> removes an own property and nothing else.
\<close>

fun replaceValue :: "string \<Rightarrow> 'v \<Rightarrow> (string \<times> 'v) list \<Rightarrow> (string \<times> 'v) list" where
  "replaceValue k v [] = []"
| "replaceValue k v (p # ps) = (if fst p = k then (k, v) # ps else p # replaceValue k v ps)"

fun insertIndex :: "string \<Rightarrow> 'v \<Rightarrow> (string \<times> 'v) list \<Rightarrow> (string \<times> 'v) list" where
  "insertIndex k v [] = [(k, v)]"
| "insertIndex k v (p # ps) =
     (if isArrayIndex (fst p) \<and> indexValue (fst p) < indexValue k
      then p # insertIndex k v ps else (k, v) # p # ps)"

definition assign :: "string \<Rightarrow> 'v \<Rightarrow> (string \<times> 'v) list \<Rightarrow> (string \<times> 'v) list" where
  "assign k v ps =
     (if map_of ps k \<noteq> None then replaceValue k v ps
      else if isArrayIndex k then insertIndex k v ps
      else ps @ [(k, v)])"

definition deleteKey :: "string \<Rightarrow> (string \<times> 'v) list \<Rightarrow> (string \<times> 'v) list" where
  "deleteKey k ps = filter (\<lambda>p. fst p \<noteq> k) ps"

text \<open>
  What \<^verbatim>\<open>this.manifest.entries[key]\<close> evaluates to: an entry, a string or a number (a
  field of the entry that is the prototype), some other object (a viewport, a method of
  \<^verbatim>\<open>Object.prototype\<close>, \<^verbatim>\<open>Object.prototype\<close> itself), or \<^verbatim>\<open>undefined\<close>. An own
  property comes first. \<^verbatim>\<open>__proto__\<close> is an accessor of \<^verbatim>\<open>Object.prototype\<close> that
  reads the prototype; any other key is looked up in the prototype, when that is an
  entry, and then in \<^verbatim>\<open>Object.prototype\<close>.
\<close>

datatype entryValue =
  AnEntry CacheManifestEntry | AString string | ANumber int | AnObject | NoValue

definition objectPrototypeNames :: "string list" where
  "objectPrototypeNames =
     [''constructor'', ''__defineGetter__'', ''__defineSetter__'', ''hasOwnProperty'',
      ''__lookupGetter__'', ''__lookupSetter__'', ''isPrototypeOf'',
      ''propertyIsEnumerable'', ''toString'', ''valueOf'', ''toLocaleString'']"

definition inherited :: "string \<Rightarrow> entryValue" where
  "inherited key = (if key \<in> set objectPrototypeNames then AnObject else NoValue)"

definition readEntry :: "ScreenshotCache \<Rightarrow> string \<Rightarrow> entryValue" where
  "readEntry c key =
     (case map_of (manifest c) key of
        Some e \<Rightarrow> AnEntry e
      | None \<Rightarrow>
          (case entriesPrototype c of
             None \<Rightarrow> (if key = ''__proto__'' then AnObject else inherited key)
           | Some e \<Rightarrow>
               (if key = ''__proto__'' then AnEntry e
                else if key = ''url'' then AString (url e)
                else if key = ''viewport'' then AnObject
                else if key = ''timestamp'' then ANumber (timestamp e)
                else if key = ''filePath'' then AString (filePath e)
                else inherited key)))"

fun truthy :: "entryValue \<Rightarrow> bool" where
  "truthy (AnEntry e) = True"
| "truthy (AString s) = (s \<noteq> [])"
| "truthy (ANumber n) = (n \<noteq> 0)"
| "truthy AnObject = True"
| "truthy NoValue = False"

text \<open>
  \<^verbatim>\<open>this.manifest.entries[key] = entry\<close>: the key \<^verbatim>\<open>__proto__\<close>, unless it is an own
  property (as \<^verbatim>\<open>JSON.parse\<close> can make it), runs the setter of \<^verbatim>\<open>Object.prototype\<close>,
  which makes the entry the prototype; every other key defines an own property.
\<close>

definition assignEntry :: "string \<Rightarrow> CacheManifestEntry \<Rightarrow> ScreenshotCache \<Rightarrow> ScreenshotCache" where
  "assignEntry key e c =
     (if key = ''__proto__'' \<and> map_of (manifest c) key = None
      then c\<lparr>entriesPrototype := Some e\<rparr>
      else c\<lparr>manifest := assign key e (manifest c)\<rparr>)"

text \<open>The constructor; \<open>cwd\<close> is the working directory of the process.\<close>

definition newScreenshotCache :: "string \<Rightarrow> string option \<Rightarrow> bool \<Rightarrow> ScreenshotCache" where
  "newScreenshotCache cwd dir dis =
     \<lparr>cacheDir = resolve cwd [case dir of None \<Rightarrow> DEFAULT_CACHE_DIR | Some d \<Rightarrow> d],
      manifest = [], entriesPrototype = None, disabled = dis\<rparr>"

text \<open>
  Every method takes the cache object and the file system and returns its result with
  both. \<open>toDoc\<close> stands for \<^verbatim>\<open>JSON.stringify(this.manifest, null, 2)\<close> and
  \<open>fromDoc\<close> for \<^verbatim>\<open>JSON.parse\<close> of the manifest file, \<open>None\<close> where it throws or
  the document has no \<^verbatim>\<open>entries\<close> object; both deal with own properties only.
\<close>

definition saveManifest ::
  "(CacheManifest \<Rightarrow> buffer) \<Rightarrow> ScreenshotCache \<Rightarrow> fs \<Rightarrow> io_error + fs" where
  "saveManifest toDoc c t =
     (let manifestPath = join [cacheDir c, MANIFEST_FILE]
      in writeFile t manifestPath (toDoc (manifest c)))"

definition init ::
  "(buffer \<Rightarrow> CacheManifest option) \<Rightarrow> ScreenshotCache \<Rightarrow> fs \<Rightarrow>
   (io_error + unit) \<times> ScreenshotCache \<times> fs" where
  "init fromDoc c t =
     (if disabled c then (Inr (), c, t)
      else
        (case (if \<not> existsSync t (cacheDir c) then mkdirRecursive t (cacheDir c) else Inr t) of
           Inl e \<Rightarrow> (Inl e, c, t)
         | Inr t1 \<Rightarrow>
             (let manifestPath = join [cacheDir c, MANIFEST_FILE]
              in if existsSync t1 manifestPath then
                   (case readFile t1 manifestPath of
                      Inl e \<Rightarrow> (Inr (), c\<lparr>manifest := [], entriesPrototype := None\<rparr>, t1)
                    | Inr content \<Rightarrow>
                        (case fromDoc content of
                           None \<Rightarrow> (Inr (), c\<lparr>manifest := [], entriesPrototype := None\<rparr>, t1)
                         | Some m \<Rightarrow> (Inr (), c\<lparr>manifest := m, entriesPrototype := None\<rparr>, t1)))
                 else (Inr (), c, t1))))"

text \<open>
  \<^verbatim>\<open>getCached\<close>: \<open>None\<close> is \<^verbatim>\<open>null\<close>, a miss. A value that is truthy and not an
  entry has no \<^verbatim>\<open>filePath\<close>: \<^verbatim>\<open>resolve(this.cacheDir, undefined)\<close> throws.
\<close>

definition getCached ::
  "string \<Rightarrow> string \<Rightarrow> ScreenshotCache \<Rightarrow> fs \<Rightarrow>
   (io_error + buffer option) \<times> ScreenshotCache \<times> fs" where
  "getCached cwd key c t =
     (if disabled c then (Inr None, c, t)
      else
        (let entry = readEntry c key
         in if \<not> truthy entry then (Inr None, c, t)
            else
              (case entry of
                 AnEntry e \<Rightarrow>
                   (let path = resolve cwd [cacheDir c, filePath e]
                    in if \<not> existsSync t path
                       then (Inr None, c\<lparr>manifest := deleteKey key (manifest c)\<rparr>, t)
                       else
                         (case readFile t path of
                            Inr buffer \<Rightarrow> (Inr (Some buffer), c, t)
                          | Inl _ \<Rightarrow> (Inr None, c, t)))
               | _ \<Rightarrow> (Inl (ERR_INVALID_ARG_TYPE ''paths[1]''), c, t))))"

text \<open>\<^verbatim>\<open>setCached\<close>; \<open>now\<close> is \<^verbatim>\<open>Date.now()\<close>. It returns the path written.\<close>

definition setCached ::
  "(CacheManifest \<Rightarrow> buffer) \<Rightarrow> int \<Rightarrow> string \<Rightarrow> buffer \<Rightarrow> string \<Rightarrow> ViewportConfig \<Rightarrow>
   ScreenshotCache \<Rightarrow> fs \<Rightarrow> (io_error + string) \<times> ScreenshotCache \<times> fs" where
  "setCached toDoc now key screenshot u vp c t =
     (let fileName = key @ ''.png'';
          path = join [cacheDir c, fileName]
      in case writeFile t path screenshot of
           Inl e \<Rightarrow> (Inl e, c, t)
         | Inr t1 \<Rightarrow>
             (let c1 = assignEntry key
                         \<lparr>url = u, viewport = vp, timestamp = now, filePath = fileName\<rparr> c
              in case saveManifest toDoc c1 t1 of
                   Inl e \<Rightarrow> (Inl e, c1, t1)
                 | Inr t2 \<Rightarrow> (Inr path, c1, t2)))"

definition clearCache ::
  "(CacheManifest \<Rightarrow> buffer) \<Rightarrow> ScreenshotCache \<Rightarrow> fs \<Rightarrow>
   (io_error + unit) \<times> ScreenshotCache \<times> fs" where
  "clearCache toDoc c t =
     (let c1 = c\<lparr>manifest := [], entriesPrototype := None\<rparr>
      in case saveManifest toDoc c1 t of
           Inl e \<Rightarrow> (Inl e, c1, t)
         | Inr t1 \<Rightarrow> (Inr (), c1, t1))"

text \<open>
  Concrete inputs: a working directory \<open>/work\<close> with an existing, empty cache
  directory, one key, one viewport, and a stand-in for the manifest's serialization
  that lists each key with its file name.
\<close>

definition demoDoc :: "CacheManifest \<Rightarrow> buffer" where
  "demoDoc m = concat (map (\<lambda>p. fst p @ '':'' @ filePath (snd p) @ '';'') m)"

definition demoKey :: string where "demoKey = ''0123456789abcdef''"

definition mobile :: ViewportConfig where
  "mobile = \<lparr>name = ''mobile'', width = 375, height = 812\<rparr>"

definition demoEntry :: CacheManifestEntry where
  "demoEntry = \<lparr>url = ''https://example.com/'', viewport = mobile, timestamp = 1700000000000,
                 filePath = ''0123456789abcdef.png''\<rparr>"

definition emptyCacheDir :: fs where
  "emptyCacheDir = \<lparr>files = Map.empty, dirs = {''/'', ''/work'', ''/work/cache''}\<rparr>"

definition noCacheDir :: fs where
  "noCacheDir = \<lparr>files = Map.empty, dirs = {''/'', ''/work''}\<rparr>"

definition enabledCache :: ScreenshotCache where
  "enabledCache = newScreenshotCache ''/work'' (Some ''cache'') False"

definition disabledCache :: ScreenshotCache where
  "disabledCache = newScreenshotCache ''/work'' (Some ''cache'') True"

definition staleDisabledCache :: ScreenshotCache where
  "staleDisabledCache =
     \<lparr>cacheDir = ''/work/cache'', manifest = [(demoKey, demoEntry)],
      entriesPrototype = None, disabled = True\<rparr>"

definition staleEnabledCache :: ScreenshotCache where
  "staleEnabledCache =
     \<lparr>cacheDir = ''/work/cache'', manifest = [(demoKey, demoEntry)],
      entriesPrototype = None, disabled = False\<rparr>"

text \<open>
  The enabled cache after \<^verbatim>\<open>setCached('__proto__', ...)\<close>: no own property, and the
  entry stored is the prototype of \<^verbatim>\<open>entries\<close>.
\<close>

definition protoEntry :: CacheManifestEntry where
  "protoEntry = \<lparr>url = ''https://example.com/'', viewport = mobile, timestamp = 1700000000000,
                  filePath = ''__proto__.png''\<rparr>"

definition protoCache :: ScreenshotCache where
  "protoCache =
     \<lparr>cacheDir = ''/work/cache'', manifest = [], entriesPrototype = Some protoEntry,
      disabled = False\<rparr>"

section \<open>Cache keys (ScreenshotCache.generateKey)\<close>

text \<open>
  The key is the first 16 hexadecimal digits of the SHA-256 digest of
  \<^verbatim>\<open>JSON.stringify({ url, viewport, captureOpts }, keys)\<close>, where \<open>keys\<close> is the
  sorted array of the three top-level property names. A JavaScript value is a \<open>json\<close>
  term over a type of numbers; an object lists its own properties in insertion order.
  The numbers hashed are the integers the schemas allow.
\<close>

datatype 'n json =
    JUndefined
  | JNull
  | JBool bool
  | JNumber 'n
  | JString string
  | JArray "'n json list"
  | JObject "(string \<times> 'n json) list"

definition hexDigit :: "nat \<Rightarrow> char" where
  "hexDigit d = ''0123456789abcdef'' ! (d mod 16)"

text \<open>\<^verbatim>\<open>QuoteJSONString\<close>, on bytes.\<close>

definition quoteChar :: "char \<Rightarrow> string" where
  "quoteChar c =
     (if c = CHR 0x08 then [CHR 0x5C, CHR ''b'']
      else if c = CHR 0x09 then [CHR 0x5C, CHR ''t'']
      else if c = CHR 0x0A then [CHR 0x5C, CHR ''n'']
      else if c = CHR 0x0C then [CHR 0x5C, CHR ''f'']
      else if c = CHR 0x0D then [CHR 0x5C, CHR ''r'']
      else if c = CHR 0x22 then [CHR 0x5C, CHR 0x22]
      else if c = CHR 0x5C then [CHR 0x5C, CHR 0x5C]
      else if (of_char c :: nat) < 32
        then [CHR 0x5C, CHR ''u'', CHR ''0'', CHR ''0'',
              hexDigit (of_char c div 16), hexDigit (of_char c)]
      else [c])"

definition quoteJSONString :: "string \<Rightarrow> string" where
  "quoteJSONString s = [CHR 0x22] @ concat (map quoteChar s) @ [CHR 0x22]"

text \<open>\<^verbatim>\<open>Number::toString\<close> for an integer (below \<open>10\<^sup>2\<^sup>1\<close> in magnitude).\<close>

fun decimal :: "nat \<Rightarrow> string" where
  "decimal n = (if n < 10 then [hexDigit n] else decimal (n div 10) @ [hexDigit (n mod 10)])"

declare decimal.simps [simp del]

definition numberToString :: "int \<Rightarrow> string" where
  "numberToString i = (if i < 0 then ''-'' @ decimal (nat (- i)) else decimal (nat i))"

text \<open>
  The properties \<^verbatim>\<open>SerializeJSONObject\<close> visits: with an array replacer, the names of
  the property list, in its order, at every nesting depth; without one, the object's own
  properties.
\<close>

definition selectProperties ::
  "string list option \<Rightarrow> (string \<times> 'n json) list \<Rightarrow> (string \<times> 'n json) list" where
  "selectProperties propertyList members =
     (case propertyList of
        None \<Rightarrow> members
      | Some K \<Rightarrow>
          concat (map (\<lambda>P. case map_of members P of None \<Rightarrow> [] | Some v \<Rightarrow> [(P, v)]) K))"

text \<open>
  \<^verbatim>\<open>SerializeJSONProperty\<close>, without indentation: \<open>None\<close> is \<^verbatim>\<open>undefined\<close>,
  which drops a property and prints as \<^verbatim>\<open>null\<close> in an array.
\<close>

function serializeJSONProperty :: "string list option \<Rightarrow> int json \<Rightarrow> string option" where
  "serializeJSONProperty pl JUndefined = None"
| "serializeJSONProperty pl JNull = Some ''null''"
| "serializeJSONProperty pl (JBool b) = Some (if b then ''true'' else ''false'')"
| "serializeJSONProperty pl (JNumber n) = Some (numberToString n)"
| "serializeJSONProperty pl (JString s) = Some (quoteJSONString s)"
| "serializeJSONProperty pl (JArray xs) =
     Some (''['' @ joinWith '','' (map (\<lambda>x. case serializeJSONProperty pl x of
                                            None \<Rightarrow> ''null'' | Some s \<Rightarrow> s) xs) @ '']'')"
| "serializeJSONProperty pl (JObject members) =
     Some (''{'' @ joinWith '',''
             (concat (map (\<lambda>(P, v). case serializeJSONProperty pl v of
                                       None \<Rightarrow> []
                                     | Some s \<Rightarrow> [quoteJSONString P @ '':'' @ s])
                          (selectProperties pl members))) @ ''}'')"
  by pat_completeness auto
termination
proof (relation "measure (\<lambda>(pl, v). size v)")
  show "wf (measure (\<lambda>(pl, v). size v))" by simp
next
  fix pl :: "string list option" and xs :: "int json list" and x
  assume "x \<in> set xs"
  then show "((pl, x), (pl, JArray xs)) \<in> measure (\<lambda>(pl, v). size v)"
    by (induction xs) auto
next
  fix pl :: "string list option" and members :: "(string \<times> int json) list" and x xa y
  assume "x \<in> set (selectProperties pl members)" and "(xa, y) = x"
  then have "(xa, y) \<in> set members"
    by (auto simp: selectProperties_def intro: map_of_SomeD[OF sym] split: option.splits)
  then show "((pl, y), (pl, JObject members)) \<in> measure (\<lambda>(pl, v). size v)"
    by (induction members) auto
qed

definition JSON_stringify :: "int json \<Rightarrow> string list option \<Rightarrow> string option" where
  "JSON_stringify v replacer = serializeJSONProperty replacer v"

record CaptureOptions =
  delay :: "int option"
  waitFor :: "string option"
  hideSelectors :: "string list option"
  noAnimations :: "bool option"
  darkMode :: "bool option"
  timeout :: "int option"
  scrollReveal :: "bool option"

definition property ::
  "string \<Rightarrow> ('a \<Rightarrow> int json) \<Rightarrow> 'a option \<Rightarrow> (string \<times> int json) list" where
  "property k f v = (case v of None \<Rightarrow> [] | Some x \<Rightarrow> [(k, f x)])"

definition viewportValue :: "ViewportConfig \<Rightarrow> int json" where
  "viewportValue vp =
     JObject [(''name'', JString (name vp)), (''width'', JNumber (width vp)),
              (''height'', JNumber (height vp))]"

definition captureOptionsValue :: "CaptureOptions option \<Rightarrow> int json" where
  "captureOptionsValue co =
     (case co of
        None \<Rightarrow> JUndefined
      | Some opts \<Rightarrow>
          JObject (property ''delay'' JNumber (delay opts)
                 @ property ''waitFor'' JString (waitFor opts)
                 @ property ''hideSelectors'' (\<lambda>ss. JArray (map JString ss)) (hideSelectors opts)
                 @ property ''noAnimations'' JBool (noAnimations opts)
                 @ property ''darkMode'' JBool (darkMode opts)
                 @ property ''timeout'' JNumber (timeout opts)
                 @ property ''scrollReveal'' JBool (scrollReveal opts)))"

text \<open>\<^verbatim>\<open>Object.keys({ url, viewport, captureOpts }).sort()\<close>, by code-unit order.\<close>

definition sortedKeys :: "string list" where
  "sortedKeys = sort_key (map (of_char :: char \<Rightarrow> nat)) [''url'', ''viewport'', ''captureOpts'']"

definition keyData :: "string \<Rightarrow> ViewportConfig \<Rightarrow> CaptureOptions option \<Rightarrow> string option" where
  "keyData u vp co =
     JSON_stringify
       (JObject [(''url'', JString u), (''viewport'', viewportValue vp),
                 (''captureOpts'', captureOptionsValue co)])
       (Some sortedKeys)"

text \<open>
  \<open>sha256hex\<close> stands for \<^verbatim>\<open>createHash('sha256').update(data).digest('hex')\<close>.
\<close>

definition generateKey ::
  "(string \<Rightarrow> string) \<Rightarrow> string \<Rightarrow> ViewportConfig \<Rightarrow> CaptureOptions option \<Rightarrow> string" where
  "generateKey sha256hex u vp co =
     (case keyData u vp co of
        Some data \<Rightarrow> take 16 (sha256hex data)
      | None \<Rightarrow> [])"

definition desktop :: ViewportConfig where
  "desktop = \<lparr>name = ''desktop'', width = 1440, height = 900\<rparr>"

definition noOptions :: CaptureOptions where
  "noOptions = \<lparr>delay = None, waitFor = None, hideSelectors = None, noAnimations = None,
                 darkMode = None, timeout = None, scrollReveal = None\<rparr>"

definition slowDarkOptions :: CaptureOptions where
  "slowDarkOptions = \<lparr>delay = Some 1000, waitFor = Some ''#app'', hideSelectors = Some [''.ad''],
                       noAnimations = Some True, darkMode = Some True, timeout = Some 60000,
                       scrollReveal = Some False\<rparr>"

section \<open>The doubles of JavaScript\<close>

text \<open>
  A number of JavaScript is an IEEE 754 double: a quotient or a product is the exact
  result rounded to the nearest number with a significand of 53 bits, a tie going to the
  even significand. \<open>fl\<close> is this rounding, on rationals and with no bound on the
  exponent, so it is the double arithmetic for magnitudes between \<open>2\<^sup>-\<^sup>1\<^sup>0\<^sup>2\<^sup>2\<close> and
  \<open>2\<^sup>1\<^sup>0\<^sup>2\<^sup>4\<close>. \<open>binade x\<close> is the exponent of \<open>x\<close>, the integer \<open>e\<close> with
  \<open>2\<^sup>e \<le> x < 2\<^sup>e\<^sup>+\<^sup>1\<close>.
\<close>

definition binade :: "rat \<Rightarrow> int" where
  "binade x =
     (if 1 \<le> x then int (floorlog 2 (nat \<lfloor>x\<rfloor>)) - 1
      else - int (floorlog 2 (nat (\<lceil>1 / x\<rceil> - 1))))"

definition roundHalfEven :: "rat \<Rightarrow> int" where
  "roundHalfEven y =
     (let f = \<lfloor>y\<rfloor>; d = y - of_int f
      in if d < 1 / 2 then f
         else if 1 / 2 < d then f + 1
         else if even f then f else f + 1)"

definition fl :: "rat \<Rightarrow> rat" where
  "fl x =
     (if x = 0 then 0
      else (let a = \<bar>x\<bar>; ulp = 2 powi (binade a - 52)
            in sgn x * (of_int (roundHalfEven (a / ulp)) * ulp)))"

section \<open>Image normalizer (resizeIfNeeded in src/capture.ts)\<close>

text \<open>
  A buffer handed to the normalizer holds an encoded image: what the code reads of it
  is its pixel size (\<^verbatim>\<open>sharp(buffer).metadata()\<close>) and its length in bytes. The pixel
  size of what \<^verbatim>\<open>sharp\<close> returns is fixed by the request; the length of the encoding
  depends on the picture and is given by the parameter \<open>png\<close>, a function of the
  encoder settings, the size asked for and the source. An image always has its two
  sides, so the fallbacks \<^verbatim>\<open>?? 0\<close> and \<^verbatim>\<open>?? 1440\<close> of the code never apply.
  The sides are 32-bit integers of \<^verbatim>\<open>libvips\<close>, exact as numbers of JavaScript; every
  quotient and product of the code is rounded to a double by \<open>fl\<close>, and the literal
  \<^verbatim>\<open>0.7\<close> is the double \<open>fl (7 / 10)\<close>.
\<close>

record image =
  imgWidth :: int
  imgHeight :: int
  byteLength :: nat

datatype encoding = Lossless | Quality int

type_synonym encoder = "encoding \<Rightarrow> int \<Rightarrow> int \<Rightarrow> image \<Rightarrow> nat"

datatype sharp_error = InvalidParameter string int

definition MAX_IMAGE_BYTES :: nat where "MAX_IMAGE_BYTES = 5 * 1024 * 1024"
definition MAX_IMAGE_DIMENSION :: int where "MAX_IMAGE_DIMENSION = 7800"

text \<open>
  \<^verbatim>\<open>Math.round\<close>: the nearest integer, halves going up; it is computed exactly from
  the double it is given.
\<close>

definition mathRound :: "rat \<Rightarrow> int" where
  "mathRound x = \<lfloor>x + 1 / 2\<rfloor>"

text \<open>
  \<^verbatim>\<open>sharp(b).resize({ width, height }).png().toBuffer()\<close>: the image at exactly the
  size requested; \<^verbatim>\<open>resize\<close> rejects a side that is not a positive integer.
\<close>

definition resizeBoth :: "encoder \<Rightarrow> int \<Rightarrow> int \<Rightarrow> image \<Rightarrow> sharp_error + image" where
  "resizeBoth png w h b =
     (if w \<le> 0 then Inl (InvalidParameter ''width'' w)
      else if h \<le> 0 then Inl (InvalidParameter ''height'' h)
      else Inr \<lparr>imgWidth = w, imgHeight = h, byteLength = png Lossless w h b\<rparr>)"

text \<open>\<^verbatim>\<open>sharp(b).png({ quality }).toBuffer()\<close>: the same pixels, encoded again.\<close>

definition reencode :: "encoder \<Rightarrow> int \<Rightarrow> image \<Rightarrow> image" where
  "reencode png quality b =
     \<lparr>imgWidth = imgWidth b, imgHeight = imgHeight b,
      byteLength = png (Quality quality) (imgWidth b) (imgHeight b) b\<rparr>"

text \<open>
  \<^verbatim>\<open>sharp(b).resize({ width }).png({ quality }).toBuffer()\<close>: the height follows the
  width in proportion and is at least one pixel.
\<close>

definition autoHeight :: "image \<Rightarrow> int \<Rightarrow> int" where
  "autoHeight b w = max 1 (mathRound (of_int (imgHeight b) * of_int w / of_int (imgWidth b)))"

definition resizeWidth :: "encoder \<Rightarrow> int \<Rightarrow> int \<Rightarrow> image \<Rightarrow> sharp_error + image" where
  "resizeWidth png w quality b =
     (if w \<le> 0 then Inl (InvalidParameter ''width'' w)
      else Inr \<lparr>imgWidth = w, imgHeight = autoHeight b w,
                byteLength = png (Quality quality) w (autoHeight b w) b\<rparr>)"

text \<open>
  Phase 1, the pixel limit. A division by a side of 0 is \<^verbatim>\<open>Infinity\<close> in JavaScript,
  so the other quotient is the minimum.
\<close>

definition scaleFactor :: "int \<Rightarrow> int \<Rightarrow> rat" where
  "scaleFactor origWidth origHeight =
     (if origWidth = 0 then fl (of_int MAX_IMAGE_DIMENSION / of_int origHeight)
      else if origHeight = 0 then fl (of_int MAX_IMAGE_DIMENSION / of_int origWidth)
      else min (fl (of_int MAX_IMAGE_DIMENSION / of_int origWidth))
               (fl (of_int MAX_IMAGE_DIMENSION / of_int origHeight)))"

definition enforceDimensions :: "encoder \<Rightarrow> image \<Rightarrow> sharp_error + image" where
  "enforceDimensions png buffer =
     (let origWidth = imgWidth buffer;
          origHeight = imgHeight buffer
      in if origWidth > MAX_IMAGE_DIMENSION \<or> origHeight > MAX_IMAGE_DIMENSION then
           (let scale = scaleFactor origWidth origHeight;
                newWidth = mathRound (fl (of_int origWidth * scale));
                newHeight = mathRound (fl (of_int origHeight * scale))
            in resizeBoth png newWidth newHeight buffer)
         else Inr buffer)"

text \<open>Phase 2, the byte limit: the \<^verbatim>\<open>while\<close> loop over the quality.\<close>

function qualityLoop :: "encoder \<Rightarrow> image \<Rightarrow> image \<Rightarrow> int \<Rightarrow> image" where
  "qualityLoop png current result quality =
     (if byteLength result > MAX_IMAGE_BYTES \<and> quality > 20
      then qualityLoop png current (reencode png quality current) (quality - 10)
      else result)"
  by pat_completeness auto
termination
  by (relation "measure (\<lambda>(png, current, result, quality). nat quality)") auto

declare qualityLoop.simps [simp del]

definition enforceBytes :: "encoder \<Rightarrow> image \<Rightarrow> sharp_error + image" where
  "enforceBytes png current =
     (if byteLength current \<le> MAX_IMAGE_BYTES then Inr current
      else
        (let result = qualityLoop png current current 80
         in if byteLength result > MAX_IMAGE_BYTES then
              (let width = imgWidth current
               in resizeWidth png (mathRound (fl (of_int width * fl (7 / 10)))) 60 current)
            else Inr result))"

definition resizeIfNeeded :: "encoder \<Rightarrow> image \<Rightarrow> sharp_error + image" where
  "resizeIfNeeded png buffer =
     (case enforceDimensions png buffer of
        Inl e \<Rightarrow> Inl e
      | Inr current \<Rightarrow> enforceBytes png current)"

text \<open>
  The encodings of the size phase in the order the code tries them: the image as the
  pixel phase left it, qualities 80 down to 30 at the same pixel size, and last the one
  at 70% of the width and quality 60.
\<close>

definition lastResort :: "encoder \<Rightarrow> image \<Rightarrow> image" where
  "lastResort png current =
     (let w = mathRound (fl (of_int (imgWidth current) * fl (7 / 10)))
      in \<lparr>imgWidth = w, imgHeight = autoHeight current w,
          byteLength = png (Quality 60) w (autoHeight current w) current\<rparr>)"

definition encodingsTried :: "encoder \<Rightarrow> image \<Rightarrow> image list" where
  "encodingsTried png current =
     current # map (\<lambda>q. reencode png q current) [80, 70, 60, 50, 40, 30]
       @ [lastResort png current]"

definition firstWithin :: "image list \<Rightarrow> image option" where
  "firstWithin candidates = find (\<lambda>c. byteLength c \<le> MAX_IMAGE_BYTES) candidates"

text \<open>
  Concrete inputs: an encoder for a picture that does not compress (four bytes a pixel
  without loss, one byte a pixel once quantised), one for a picture that does (a byte
  for every hundred pixels), and three images.
\<close>

definition noisePng :: encoder where
  "noisePng e w h b = (case e of Lossless \<Rightarrow> nat (4 * w * h) | Quality q \<Rightarrow> nat (w * h))"

definition flatPng :: encoder where
  "flatPng e w h b = nat (w * h) div 100"

definition squareNoise :: image where
  "squareNoise = \<lparr>imgWidth = 10000, imgHeight = 10000, byteLength = 400000000\<rparr>"

definition hairline :: image where
  "hairline = \<lparr>imgWidth = 20000, imgHeight = 1, byteLength = 80000\<rparr>"

definition noisyPage :: image where
  "noisyPage = \<lparr>imgWidth = 1920, imgHeight = 7800, byteLength = 59904000\<rparr>"

definition longPage :: image where
  "longPage = \<lparr>imgWidth = 1440, imgHeight = 23400, byteLength = 6000000\<rparr>"

section \<open>Parsing the provider's answer (parseAnalysisResponse in src/analyze.ts)\<close>

text \<open>
  The answer of the vision provider is free text. A string is the list of the bytes of
  its UTF-8 encoding. The white space of \<^verbatim>\<open>trim\<close> and of \<^verbatim>\<open>\s\<close> is the
  \<^verbatim>\<open>WhiteSpace\<close> and \<^verbatim>\<open>LineTerminator\<close> of ECMAScript, each character the byte
  sequence that encodes it: U+0009 to U+000D, U+0020, U+00A0, U+1680, U+2000 to U+200A,
  U+2028, U+2029, U+202F, U+205F, U+3000 and U+FEFF. \<^verbatim>\<open>JSON.parse\<close> is the parameter
  \<open>parse\<close>: \<open>None\<close> where it throws a \<^verbatim>\<open>SyntaxError\<close>, a value with rational
  numbers otherwise.
\<close>

definition whiteSpaces :: "string list" where
  "whiteSpaces =
     [[CHR 0x09], [CHR 0x0A], [CHR 0x0B], [CHR 0x0C], [CHR 0x0D], [CHR 0x20],
      [CHR 0xC2, CHR 0xA0], [CHR 0xE1, CHR 0x9A, CHR 0x80],
      [CHR 0xE2, CHR 0x80, CHR 0x80], [CHR 0xE2, CHR 0x80, CHR 0x81],
      [CHR 0xE2, CHR 0x80, CHR 0x82], [CHR 0xE2, CHR 0x80, CHR 0x83],
      [CHR 0xE2, CHR 0x80, CHR 0x84], [CHR 0xE2, CHR 0x80, CHR 0x85],
      [CHR 0xE2, CHR 0x80, CHR 0x86], [CHR 0xE2, CHR 0x80, CHR 0x87],
      [CHR 0xE2, CHR 0x80, CHR 0x88], [CHR 0xE2, CHR 0x80, CHR 0x89],
      [CHR 0xE2, CHR 0x80, CHR 0x8A], [CHR 0xE2, CHR 0x80, CHR 0xA8],
      [CHR 0xE2, CHR 0x80, CHR 0xA9], [CHR 0xE2, CHR 0x80, CHR 0xAF],
      [CHR 0xE2, CHR 0x81, CHR 0x9F], [CHR 0xE3, CHR 0x80, CHR 0x80],
      [CHR 0xEF, CHR 0xBB, CHR 0xBF]]"

text \<open>
  \<open>stripLeading ws s\<close> removes from the front of \<open>s\<close> every sequence of \<open>ws\<close>, as
  long as there is one. \<^verbatim>\<open>trim\<close> does it at both ends.
\<close>

function stripLeading :: "string list \<Rightarrow> string \<Rightarrow> string" where
  "stripLeading ws s =
     (case find (\<lambda>w. w \<noteq> [] \<and> take (length w) s = w) ws of
        None \<Rightarrow> s
      | Some w \<Rightarrow> stripLeading ws (drop (length w) s))"
  by pat_completeness auto
termination
proof (relation "measure (\<lambda>(ws, s). length s)")
  show "wf (measure (\<lambda>(ws :: string list, s :: string). length s))" by simp
next
  fix ws :: "string list" and s w :: string
  assume "find (\<lambda>w. w \<noteq> [] \<and> take (length w) s = w) ws = Some w"
  then have w: "w \<noteq> []" and t: "take (length w) s = w" by (auto simp: find_Some_iff)
  from t have "length (take (length w) s) = length w" by simp
  then have "length w \<le> length s" by simp
  with w have "length s - length w < length s" by (cases w) simp_all
  then show "((ws, drop (length w) s), (ws, s)) \<in> measure (\<lambda>(ws, s). length s)" by simp
qed

declare stripLeading.simps [simp del]

definition trimStart :: "string \<Rightarrow> string" where
  "trimStart s = stripLeading whiteSpaces s"

definition trimEnd :: "string \<Rightarrow> string" where
  "trimEnd s = rev (stripLeading (map rev whiteSpaces) (rev s))"

definition trim :: "string \<Rightarrow> string" where
  "trim s = trimEnd (trimStart s)"

text \<open>The text before and after the first occurrence of a pattern.\<close>

fun splitAtFirst :: "string \<Rightarrow> string \<Rightarrow> (string \<times> string) option" where
  "splitAtFirst pat [] = (if pat = [] then Some ([], []) else None)"
| "splitAtFirst pat (c # cs) =
     (if take (length pat) (c # cs) = pat then Some ([], drop (length pat) (c # cs))
      else (case splitAtFirst pat cs of
              None \<Rightarrow> None
            | Some (before, after) \<Rightarrow> Some (c # before, after)))"

definition fence :: string where
  "fence = [CHR 0x60, CHR 0x60, CHR 0x60]"

text \<open>
  The match of the fence pattern (three backquotes, an optional \<^verbatim>\<open>json\<close>, white
  space, a shortest body, three backquotes): its first group, if the text has an
  opening fence with a closing one after it.
\<close>

definition fenceMatch :: "string \<Rightarrow> string option" where
  "fenceMatch s =
     (case splitAtFirst fence s of
        None \<Rightarrow> None
      | Some (before, rest) \<Rightarrow>
          (let afterTag = (if take 4 rest = ''json'' then drop 4 rest else rest);
               body = trimStart afterTag
           in case splitAtFirst fence body of
                None \<Rightarrow> None
              | Some (group1, after) \<Rightarrow> Some group1))"

definition extractJson :: "string \<Rightarrow> string" where
  "extractJson raw =
     (let jsonStr = trim raw
      in case fenceMatch jsonStr of
           None \<Rightarrow> jsonStr
         | Some group1 \<Rightarrow> trim group1)"

text \<open>
  The schemas of src/types.ts. A validator returns the parsed data, unknown properties
  stripped, or \<open>None\<close> where \<^verbatim>\<open>safeParse\<close> reports a failure.
\<close>

type_synonym validator = "rat json \<Rightarrow> rat json option"

definition zString :: validator where
  "zString v = (case v of JString s \<Rightarrow> Some v | _ \<Rightarrow> None)"

definition zEnum :: "string list \<Rightarrow> validator" where
  "zEnum names v = (case v of JString s \<Rightarrow> (if s \<in> set names then Some v else None) | _ \<Rightarrow> None)"

definition zNumberBetween :: "rat \<Rightarrow> rat \<Rightarrow> validator" where
  "zNumberBetween lo hi v =
     (case v of JNumber n \<Rightarrow> (if lo \<le> n \<and> n \<le> hi then Some v else None) | _ \<Rightarrow> None)"

definition zNullable :: "validator \<Rightarrow> validator" where
  "zNullable inner v = (case v of JNull \<Rightarrow> Some JNull | _ \<Rightarrow> inner v)"

fun allSome :: "'a option list \<Rightarrow> 'a list option" where
  "allSome [] = Some []"
| "allSome (None # xs) = None"
| "allSome (Some x # xs) = (case allSome xs of None \<Rightarrow> None | Some ys \<Rightarrow> Some (x # ys))"

definition zArray :: "validator \<Rightarrow> validator" where
  "zArray element v =
     (case v of
        JArray xs \<Rightarrow> (case allSome (map element xs) of
                        None \<Rightarrow> None | Some ys \<Rightarrow> Some (JArray ys))
      | _ \<Rightarrow> None)"

text \<open>
  One property of an object schema: the key, its validator, and whether it is optional.
  A missing property reads as \<^verbatim>\<open>undefined\<close>.
\<close>

definition getProperty :: "(string \<times> 'n json) list \<Rightarrow> string \<Rightarrow> 'n json" where
  "getProperty members k = (case map_of members k of None \<Rightarrow> JUndefined | Some v \<Rightarrow> v)"

definition zField ::
  "(string \<times> rat json) list \<Rightarrow> string \<times> validator \<times> bool \<Rightarrow> (string \<times> rat json) list option" where
  "zField members field =
     (case field of (k, check, optional) \<Rightarrow>
        (case getProperty members k of
           JUndefined \<Rightarrow> (if optional then Some [] else None)
         | v \<Rightarrow> (case check v of None \<Rightarrow> None | Some d \<Rightarrow> Some [(k, d)])))"

definition zObject :: "(string \<times> validator \<times> bool) list \<Rightarrow> validator" where
  "zObject shape v =
     (case v of
        JObject members \<Rightarrow>
          (case allSome (map (zField members) shape) of
             None \<Rightarrow> None
           | Some parts \<Rightarrow> Some (JObject (concat parts)))
      | _ \<Rightarrow> None)"

definition DesignFeedbackSchema :: validator where
  "DesignFeedbackSchema =
     zObject [(''layoutAndHierarchy'', zString, False), (''typography'', zString, False),
              (''colorAndContrast'', zString, False), (''responsiveness'', zString, False),
              (''visualPolish'', zString, False)]"

definition IssueSchema :: validator where
  "IssueSchema =
     zObject [(''severity'', zEnum [''critical'', ''warning'', ''info''], False),
              (''category'', zEnum [''layout'', ''typography'', ''color'', ''responsiveness'',
                                    ''polish'', ''accessibility'', ''goal-alignment'', ''other''],
               False),
              (''description'', zString, False),
              (''element'', zNullable zString, False)]"

definition GoalAssessmentSchema :: validator where
  "GoalAssessmentSchema =
     zObject [(''goal'', zString, False),
              (''alignment'', zEnum [''strong'', ''partial'', ''weak''], False),
              (''observation'', zString, False),
              (''gap'', zNullable zString, False),
              (''suggestion'', zNullable zString, False)]"

definition PageAnalysisSchema :: validator where
  "PageAnalysisSchema =
     zObject [(''feedback'', DesignFeedbackSchema, False),
              (''issues'', zArray IssueSchema, False),
              (''goalAssessments'', zArray GoalAssessmentSchema, False),
              (''overallGoalAlignment'', zNullable (zNumberBetween 0 100), False),
              (''topRecommendations'', zArray zString, False),
              (''rawResponse'', zString, True)]"

text \<open>
  What the function returns is an object with six properties; outside the validated
  branch their values are whatever the provider sent.
\<close>

record PageAnalysis =
  feedback :: "rat json"
  issues :: "rat json list"
  goalAssessments :: "rat json list"
  overallGoalAlignment :: "rat json"
  topRecommendations :: "rat json list"
  rawResponse :: string

datatype js_error = SyntaxError | TypeError

definition emptyFeedback :: "string \<Rightarrow> rat json" where
  "emptyFeedback layout =
     JObject [(''layoutAndHierarchy'', JString layout), (''typography'', JString []),
              (''colorAndContrast'', JString []), (''responsiveness'', JString []),
              (''visualPolish'', JString [])]"

text \<open>The shape returned from the \<^verbatim>\<open>catch\<close> block.\<close>

definition fallback :: "string \<Rightarrow> PageAnalysis" where
  "fallback raw =
     \<lparr>feedback = emptyFeedback raw, issues = [], goalAssessments = [],
      overallGoalAlignment = JNull, topRecommendations = [], rawResponse = raw\<rparr>"

text \<open>
  Reading a property of the parsed value: of \<^verbatim>\<open>null\<close> it throws a
  \<^verbatim>\<open>TypeError\<close>; of a number, a string, a boolean or an array it is
  \<^verbatim>\<open>undefined\<close> for the names read here.
\<close>

definition readProperty :: "rat json \<Rightarrow> string \<Rightarrow> js_error + rat json" where
  "readProperty parsed k =
     (case parsed of
        JNull \<Rightarrow> Inl TypeError
      | JUndefined \<Rightarrow> Inl TypeError
      | JObject members \<Rightarrow> Inr (getProperty members k)
      | _ \<Rightarrow> Inr JUndefined)"

definition nullish :: "rat json \<Rightarrow> rat json \<Rightarrow> rat json" where
  "nullish v d = (if v = JNull \<or> v = JUndefined then d else v)"

definition arrayOrEmpty :: "rat json \<Rightarrow> rat json list" where
  "arrayOrEmpty v = (case v of JArray xs \<Rightarrow> xs | _ \<Rightarrow> [])"

text \<open>
  \<^verbatim>\<open>PageAnalysisSchema.safeParse(parsed)\<close>: the properties of \<^verbatim>\<open>result.data\<close>
  on success.
\<close>

definition safeParse :: "rat json \<Rightarrow> (string \<times> rat json) list option" where
  "safeParse parsed =
     (case PageAnalysisSchema parsed of
        Some (JObject data) \<Rightarrow> Some data
      | _ \<Rightarrow> None)"

text \<open>The answer that validates: \<^verbatim>\<open>{ ...result.data, rawResponse: raw }\<close>.\<close>

definition validatedAnalysis :: "(string \<times> rat json) list \<Rightarrow> string \<Rightarrow> PageAnalysis" where
  "validatedAnalysis data raw =
     \<lparr>feedback = getProperty data ''feedback'',
      issues = arrayOrEmpty (getProperty data ''issues''),
      goalAssessments = arrayOrEmpty (getProperty data ''goalAssessments''),
      overallGoalAlignment = getProperty data ''overallGoalAlignment'',
      topRecommendations = arrayOrEmpty (getProperty data ''topRecommendations''),
      rawResponse = raw\<rparr>"

text \<open>
  The answer that parses but does not validate: each property is read from the parsed
  value, in the order of the object literal, and replaced where it does not fit.
\<close>

definition partialAnalysis :: "rat json \<Rightarrow> string \<Rightarrow> js_error + PageAnalysis" where
  "partialAnalysis parsed raw =
     (case readProperty parsed ''feedback'' of
        Inl e \<Rightarrow> Inl e
      | Inr f \<Rightarrow>
     (case readProperty parsed ''issues'' of
        Inl e \<Rightarrow> Inl e
      | Inr i \<Rightarrow>
     (case readProperty parsed ''goalAssessments'' of
        Inl e \<Rightarrow> Inl e
      | Inr g \<Rightarrow>
     (case readProperty parsed ''overallGoalAlignment'' of
        Inl e \<Rightarrow> Inl e
      | Inr a \<Rightarrow>
     (case readProperty parsed ''topRecommendations'' of
        Inl e \<Rightarrow> Inl e
      | Inr t \<Rightarrow>
          Inr \<lparr>feedback = nullish f (emptyFeedback []),
               issues = arrayOrEmpty i,
               goalAssessments = arrayOrEmpty g,
               overallGoalAlignment = nullish a JNull,
               topRecommendations = arrayOrEmpty t,
               rawResponse = raw\<rparr>)))))"

text \<open>The body of the \<^verbatim>\<open>try\<close> block.\<close>

definition tryParse ::
  "(string \<Rightarrow> rat json option) \<Rightarrow> string \<Rightarrow> string \<Rightarrow> js_error + PageAnalysis" where
  "tryParse parse raw jsonStr =
     (case parse jsonStr of
        None \<Rightarrow> Inl SyntaxError
      | Some parsed \<Rightarrow>
          (case safeParse parsed of
             Some data \<Rightarrow> Inr (validatedAnalysis data raw)
           | None \<Rightarrow> partialAnalysis parsed raw))"

text \<open>
  The function: whatever the \<^verbatim>\<open>try\<close> block throws is caught, and the
  \<^verbatim>\<open>catch\<close> block returns the fallback. \<open>Inl\<close> would be an exception that
  leaves the function.
\<close>

definition parseAnalysisResponse ::
  "(string \<Rightarrow> rat json option) \<Rightarrow> string \<Rightarrow> js_error + PageAnalysis" where
  "parseAnalysisResponse parse raw =
     (case tryParse parse raw (extractJson raw) of
        Inr analysis \<Rightarrow> Inr analysis
      | Inl caught \<Rightarrow> Inr (fallback raw))"

text \<open>
  Concrete inputs: a parser that knows three documents, an answer in prose, a fenced
  answer, and an answer that begins with a no-break space and ends with a byte order
  mark.
\<close>

definition tinyParse :: "string \<Rightarrow> rat json option" where
  "tinyParse s =
     (if s = ''null'' then Some JNull
      else if s = ''{}'' then Some (JObject [])
      else if s = ''[1]'' then Some (JArray [JNumber 1])
      else None)"


definition paddedObject :: string where
  "paddedObject = [CHR 0xC2, CHR 0xA0] @ ''{}'' @ [CHR 0xEF, CHR 0xBB, CHR 0xBF]"

definition fencedNull :: string where
  "fencedNull = fence @ ''json'' @ [CHR 0x0A] @ ''null'' @ [CHR 0x0A] @ fence"

definition goodDocument :: "rat json" where
  "goodDocument =
     JObject [(''feedback'',
               JObject [(''layoutAndHierarchy'', JString ''clear''), (''typography'', JString ''ok''),
                        (''colorAndContrast'', JString ''low''), (''responsiveness'', JString ''ok''),
                        (''visualPolish'', JString ''fine''), (''extra'', JBool True)]),
              (''issues'',
               JArray [JObject [(''severity'', JString ''warning''), (''category'', JString ''color''),
                                (''description'', JString ''grey on grey''), (''element'', JNull)]]),
              (''goalAssessments'', JArray []),
              (''overallGoalAlignment'', JNumber (145 / 2)),
              (''topRecommendations'', JArray [JString ''raise contrast'']),
              (''model'', JString ''unknown'')]"

section \<open>Analysis orchestrator (run in src/index.ts)\<close>

text \<open>
  \<^verbatim>\<open>run\<close> analyses every captured screenshot (Phase A) and then compares the
  viewports of every page (Phase B). A \<^verbatim>\<open>ScreenshotEntry\<close> has the fields of a
  manifest entry and the flag \<^verbatim>\<open>cached\<close>. The maps of the code keep insertion
  order and are association lists. What \<^verbatim>\<open>analyzeScreenshot\<close> and
  \<^verbatim>\<open>compareViewports\<close> do for a page belongs to the provider and the network, so
  their outcomes are parameters: \<open>Inr\<close> a result, \<open>Inl\<close> the value thrown. The types
  of an analysis and of a comparison are left open.
\<close>

record ScreenshotEntry = CacheManifestEntry +
  cached :: bool

text \<open>
  A thrown value is an \<^verbatim>\<open>Error\<close> with its message, or anything else with its
  \<^verbatim>\<open>String(err)\<close>.
\<close>

datatype thrown = Error string | NotAnError string

fun messageOf :: "thrown \<Rightarrow> string" where
  "messageOf (Error message) = message"
| "messageOf (NotAnError shown) = shown"

record ('a, 'c) PageResult =
  pageUrl :: string
  screenshots :: "(string \<times> ScreenshotEntry) list"
  analyses :: "(string \<times> 'a) list"
  crossViewportAnalysis :: "'c option"
  errors :: "(string \<times> string) list"

record ('a, 'c) collaborators =
  analyzeOutcome :: "string \<Rightarrow> string \<Rightarrow> thrown + 'a"
  compareOutcome :: "string \<Rightarrow> thrown + 'c option"

definition ANALYSIS_CONCURRENCY :: nat where "ANALYSIS_CONCURRENCY = 5"

text \<open>The tasks handed to the limiter: one analysis a screenshot, one comparison a page.\<close>

datatype job = Analyze string string | Compare string

text \<open>\<^verbatim>\<open>pageMap.get(url)\<close> followed by a change of that page.\<close>

definition updatePage ::
  "string \<Rightarrow> (('a, 'c) PageResult \<Rightarrow> ('a, 'c) PageResult) \<Rightarrow>
   ('a, 'c) PageResult list \<Rightarrow> ('a, 'c) PageResult list" where
  "updatePage u f ps = map (\<lambda>p. if pageUrl p = u then f p else p) ps"

definition pushError ::
  "string \<Rightarrow> string \<Rightarrow> ('a, 'c) PageResult \<Rightarrow> ('a, 'c) PageResult" where
  "pushError vp message p = p\<lparr>errors := errors p @ [(vp, message)]\<rparr>"

text \<open>The \<^verbatim>\<open>PageResult\<close> structures built before the phases.\<close>

definition prebuildPages ::
  "(string \<times> (string \<times> ScreenshotEntry) list) list \<Rightarrow> ('a, 'c) PageResult list" where
  "prebuildPages entries =
     map (\<lambda>(u, viewportEntries).
            \<lparr>pageUrl = u, screenshots = viewportEntries, analyses = [],
             crossViewportAnalysis = None, errors = []\<rparr>) entries"

text \<open>
  The two nested \<^verbatim>\<open>for\<close> loops of Phase A: a screenshot whose file is missing is
  recorded as an error at once, every other one becomes a task.
\<close>

fun submitViewports ::
  "fs \<Rightarrow> string \<Rightarrow> (string \<times> ScreenshotEntry) list \<Rightarrow>
   ('a, 'c) PageResult list \<times> job list \<Rightarrow> ('a, 'c) PageResult list \<times> job list" where
  "submitViewports t u [] acc = acc"
| "submitViewports t u ((vpName, entry) # rest) (ps, tasks) =
     (if \<not> existsSync t (filePath entry)
      then submitViewports t u rest
             (updatePage u (pushError vpName (''Screenshot file not found: '' @ filePath entry)) ps,
              tasks)
      else submitViewports t u rest (ps, tasks @ [Analyze u vpName]))"

fun submitPages ::
  "fs \<Rightarrow> (string \<times> (string \<times> ScreenshotEntry) list) list \<Rightarrow>
   ('a, 'c) PageResult list \<times> job list \<Rightarrow> ('a, 'c) PageResult list \<times> job list" where
  "submitPages t [] acc = acc"
| "submitPages t ((u, viewportEntries) # rest) acc =
     submitPages t rest (submitViewports t u viewportEntries acc)"

text \<open>
  The body of a task. Both bodies catch whatever the collaborator throws and record it
  on the page, so the promise of a task is fulfilled on every path: the first component
  is the rejection, \<open>None\<close> for a fulfilled promise.
\<close>

definition runJob ::
  "('a, 'c) collaborators \<Rightarrow> job \<Rightarrow> ('a, 'c) PageResult list \<Rightarrow>
   thrown option \<times> ('a, 'c) PageResult list" where
  "runJob w j ps =
     (case j of
        Analyze u vpName \<Rightarrow>
          (case analyzeOutcome w u vpName of
             Inr analysis \<Rightarrow>
               (None, updatePage u (\<lambda>p. p\<lparr>analyses := assign vpName analysis (analyses p)\<rparr>) ps)
           | Inl err \<Rightarrow> (None, updatePage u (pushError vpName (messageOf err)) ps))
      | Compare u \<Rightarrow>
          (case compareOutcome w u of
             Inr comparison \<Rightarrow>
               (None, updatePage u (\<lambda>p. p\<lparr>crossViewportAnalysis := comparison\<rparr>) ps)
           | Inl err \<Rightarrow> (None, updatePage u (pushError ''cross-viewport'' (messageOf err)) ps)))"

text \<open>
  The state of a run between two steps of the event loop: where \<^verbatim>\<open>run\<close> itself
  stands, the queue and the running tasks of the limiter, the two task lists passed to
  \<^verbatim>\<open>Promise.all\<close>, the pages, and the events so far.
\<close>

datatype pc = AwaitAnalyses | AwaitComparisons | Finished | Threw thrown

datatype run_event = Started job | Settled job

record ('a, 'c) run_state =
  pc :: pc
  pending :: "job list"
  active :: "job list"
  analysisTasks :: "job list"
  comparisonTasks :: "job list"
  pages :: "('a, 'c) PageResult list"
  trace :: "run_event list"

definition initialState ::
  "fs \<Rightarrow> (string \<times> (string \<times> ScreenshotEntry) list) list \<Rightarrow> ('a, 'c) run_state" where
  "initialState t entries =
     (case submitPages t entries (prebuildPages entries, []) of
        (ps, tasks) \<Rightarrow>
          \<lparr>pc = AwaitAnalyses, pending = tasks, active = [], analysisTasks = tasks,
           comparisonTasks = [], pages = ps, trace = []\<rparr>)"

definition allSettled :: "job list \<Rightarrow> run_event list \<Rightarrow> bool" where
  "allSettled tasks tr = list_all (\<lambda>j. Settled j \<in> set tr) tasks"

text \<open>
  One step. \<open>Start\<close>: the limiter takes the oldest queued task when fewer than five
  are running. \<open>Settle i\<close>: the \<open>i\<close>-th running task comes back and its body
  finishes; a rejected promise would reject \<^verbatim>\<open>Promise.all\<close> and make \<^verbatim>\<open>run\<close>
  throw. \<open>Resume\<close>: \<^verbatim>\<open>run\<close> continues after \<^verbatim>\<open>await Promise.all(...)\<close>, once
  every promise of the list is settled; after Phase A it queues a comparison for every
  page with more than one screenshot, and goes on to the summary if there is none.
\<close>

datatype choice = Start | Settle nat | Resume

definition step ::
  "('a, 'c) collaborators \<Rightarrow> choice \<Rightarrow> ('a, 'c) run_state \<Rightarrow> ('a, 'c) run_state option" where
  "step w c s =
     (case c of
        Start \<Rightarrow>
          (case pending s of
             [] \<Rightarrow> None
           | j # queue \<Rightarrow>
               (if length (active s) < ANALYSIS_CONCURRENCY
                then Some (s\<lparr>pending := queue, active := active s @ [j],
                             trace := trace s @ [Started j]\<rparr>)
                else None))
      | Settle i \<Rightarrow>
          (if i < length (active s) then
             (let j = active s ! i in
              case runJob w j (pages s) of
                (rejection, ps) \<Rightarrow>
                  Some (s\<lparr>active := take i (active s) @ drop (Suc i) (active s),
                           pages := ps,
                           trace := trace s @ [Settled j],
                           pc := (case rejection of
                                    None \<Rightarrow> pc s
                                  | Some err \<Rightarrow>
                                      (if pc s = AwaitAnalyses \<or> pc s = AwaitComparisons
                                       then Threw err else pc s))\<rparr>))
           else None)
      | Resume \<Rightarrow>
          (case pc s of
             AwaitAnalyses \<Rightarrow>
               (if allSettled (analysisTasks s) (trace s) then
                  (let pagesNeedingComparison = filter (\<lambda>p. length (screenshots p) > 1) (pages s)
                   in if pagesNeedingComparison = [] then Some (s\<lparr>pc := Finished\<rparr>)
                      else
                        (let tasks = map (\<lambda>p. Compare (pageUrl p)) pagesNeedingComparison
                         in Some (s\<lparr>pc := AwaitComparisons, pending := pending s @ tasks,
                                     comparisonTasks := tasks\<rparr>)))
                else None)
           | AwaitComparisons \<Rightarrow>
               (if allSettled (comparisonTasks s) (trace s) then Some (s\<lparr>pc := Finished\<rparr>)
                else None)
           | _ \<Rightarrow> None))"

text \<open>A schedule is a list of choices; a choice that is not enabled ends the execution.\<close>

fun exec ::
  "('a, 'c) collaborators \<Rightarrow> choice list \<Rightarrow> ('a, 'c) run_state \<Rightarrow> ('a, 'c) run_state option" where
  "exec w [] s = Some s"
| "exec w (c # cs) s = (case step w c s of None \<Rightarrow> None | Some s' \<Rightarrow> exec w cs s')"

text \<open>What Phase A owes a screenshot: the result on its page, or the error.\<close>

definition recorded ::
  "fs \<Rightarrow> ('a, 'c) collaborators \<Rightarrow> string \<Rightarrow> string \<Rightarrow> ScreenshotEntry \<Rightarrow>
   ('a, 'c) PageResult \<Rightarrow> bool" where
  "recorded t w u vpName entry p =
     (if \<not> existsSync t (filePath entry)
      then (vpName, ''Screenshot file not found: '' @ filePath entry) \<in> set (errors p)
      else (case analyzeOutcome w u vpName of
              Inr analysis \<Rightarrow> map_of (analyses p) vpName = Some analysis
            | Inl err \<Rightarrow> (vpName, messageOf err) \<in> set (errors p)))"

chapter \<open>Properties\<close>

section \<open>Backoff retrier\<close>

lemma invocations_append: "invocations (xs @ ys) = invocations xs @ invocations ys"
  by (induction xs rule: invocations.induct) auto

lemma retry_loop_exhaust:
  "always_fails fn \<Longrightarrow> observer_returns obs \<Longrightarrow> attempt \<le> n \<Longrightarrow>
     \<exists>e s' tr'. retry_loop fn obs n base maxd rnd attempt lastError s tr = (Inl (Some e), s', tr')
        \<and> int (length (invocations tr')) = int (length (invocations tr)) + (n + 1 - attempt)
        \<and> last (invocations tr') = Inl e"
proof (induction fn obs n base maxd rnd attempt lastError s tr rule: retry_loop.induct)
  case (1 fn obs n base maxd rnd attempt lastError s tr)
  from "1.prems"(1) obtain e s1 where fs: "fn s = (Inl e, s1)"
    unfolding always_fails_def by (metis prod.collapse)
  show ?case
  proof (cases "attempt = n")
    case True
    then show ?thesis
      by (subst retry_loop.simps) (simp add: fs invocations_append)
  next
    case less: False
    with "1.prems"(3) have lt: "attempt + 1 \<le> n" by simp
    show ?thesis
    proof (cases obs)
      case None
      from "1.IH"(1)[OF "1.prems"(3) fs[symmetric] refl less None "1.prems"(1,2) lt]
      obtain e' s' tr' where
        r: "retry_loop fn obs n base maxd rnd (attempt + 1) (Some e) s1
              (tr @ [Invoked (Inl e), Slept (backoff_delay base maxd (rnd attempt) attempt)])
            = (Inl (Some e'), s', tr')"
        and len: "int (length (invocations tr')) = int (length (invocations tr)) + 1 + (n - attempt)"
        and lst: "last (invocations tr') = Inl e'"
        by (auto simp: invocations_append)
      have "retry_loop fn obs n base maxd rnd attempt lastError s tr = (Inl (Some e'), s', tr')"
        using r by (subst retry_loop.simps) (simp add: fs less None "1.prems"(3))
      with len lst show ?thesis by simp
    next
      case (Some cb)
      from "1.prems"(2) Some obtain s2 where cbs: "cb e attempt s1 = (None, s2)"
        unfolding observer_returns_def by (metis prod.collapse)
      from "1.IH"(2)[OF "1.prems"(3) fs[symmetric] refl less Some cbs[symmetric] refl "1.prems"(1,2) lt]
      obtain e' s' tr' where
        r: "retry_loop fn obs n base maxd rnd (attempt + 1) (Some e) s2
              (tr @ [Invoked (Inl e), Notified e attempt,
                     Slept (backoff_delay base maxd (rnd attempt) attempt)])
            = (Inl (Some e'), s', tr')"
        and len: "int (length (invocations tr')) = int (length (invocations tr)) + 1 + (n - attempt)"
        and lst: "last (invocations tr') = Inl e'"
        by (auto simp: invocations_append)
      have "retry_loop fn obs n base maxd rnd attempt lastError s tr = (Inl (Some e'), s', tr')"
        using r by (subst retry_loop.simps) (simp add: fs less Some cbs "1.prems"(3))
      with len lst show ?thesis by simp
    qed
  qed
qed

lemma always_fails_failing_op: "always_fails failing_op"
  by (simp add: always_fails_def failing_op_def)

text \<open>
  Claim C4, as stated, for every retry policy with \<open>attempts \<ge> 1\<close> and every operation
  that fails on every invocation: the operation is invoked exactly \<open>attempts\<close> times and
  the error of the last invocation is thrown. It fails when the observer callback of the
  options itself throws: with three attempts allowed, the operation is invoked once and
  the observer's error 99 is thrown, not the operation's error 0.
\<close>

theorem retry_exhaustion_counterexample:
  "attempts (three_attempts throwing_observer) = Some 3 \<and>
   fst (failing_op 0) = Inl 0 \<and>
   retryWithBackoff failing_op (three_attempts throwing_observer) no_jitter 0
     = (Inl (Some 99), 1, [Invoked (Inl 0), Notified 0 1]) \<and>
   length (invocations [Invoked (Inl 0) :: (nat, unit) event, Notified 0 1]) = 1"
  by (simp add: retryWithBackoff_def three_attempts_def failing_op_def throwing_observer_def
      retry_loop.simps)

text \<open>
  Claim C4, amended: for every retry policy with \<open>attempts = n \<ge> 1\<close>, every operation
  that fails on every invocation and every observer callback that is absent or returns
  normally, \<^verbatim>\<open>retryWithBackoff\<close> invokes the operation exactly \<open>n\<close> times and then
  throws exactly the error produced by the final invocation, unwrapped.
\<close>

theorem retry_exhaustion:
  assumes "attempts opts = Some n" and "1 \<le> n" and "always_fails fn"
    and "observer_returns (onRetry opts)"
  shows "\<exists>e s' tr. retryWithBackoff fn opts rnd s = (Inl (Some e), s', tr)
           \<and> int (length (invocations tr)) = n \<and> last (invocations tr) = Inl e"
  using retry_loop_exhaust[OF assms(3,4), of 1 n _ _ rnd None s "[]"] assms(1,2)
  by (simp add: retryWithBackoff_def)

theorem retry_exhaustion_witness:
  "attempts (three_attempts quiet_observer) = Some 3 \<and> (1::int) \<le> 3 \<and>
   always_fails failing_op \<and> observer_returns (onRetry (three_attempts quiet_observer)) \<and>
   (\<exists>e s' tr. retryWithBackoff failing_op (three_attempts quiet_observer) no_jitter 0
                 = (Inl (Some e), s', tr)
       \<and> int (length (invocations tr)) = 3 \<and> last (invocations tr) = Inl e) \<and>
   retryWithBackoff failing_op (three_attempts quiet_observer) no_jitter 0
     = (Inl (Some 2), 3,
        [Invoked (Inl 0), Notified 0 1, Slept 1000,
         Invoked (Inl 1), Notified 1 2, Slept 2000, Invoked (Inl 2)])"
proof -
  have a: "attempts (three_attempts quiet_observer) = Some 3"
    by (simp add: three_attempts_def)
  have o: "observer_returns (onRetry (three_attempts quiet_observer))"
    by (simp add: observer_returns_def three_attempts_def quiet_observer_def)
  have run: "retryWithBackoff failing_op (three_attempts quiet_observer) no_jitter 0
     = (Inl (Some 2), 3,
        [Invoked (Inl 0), Notified 0 1, Slept 1000,
         Invoked (Inl 1), Notified 1 2, Slept 2000, Invoked (Inl 2)])"
    by (simp add: retryWithBackoff_def three_attempts_def failing_op_def quiet_observer_def
        backoff_delay_def DEFAULT_baseDelayMs_def DEFAULT_maxDelayMs_def no_jitter_def
        retry_loop.simps)
  from retry_exhaustion[OF a _ always_fails_failing_op o, of no_jitter 0] a o run
  show ?thesis by (simp add: always_fails_failing_op)
qed

section \<open>Paths\<close>

lemma splitOn_ne: "splitOn c xs \<noteq> []"
  by (induction xs) (auto split: list.splits)

lemma splitOn_nosep: "c \<notin> set ys \<Longrightarrow> splitOn c ys = [ys]"
  by (induction ys) auto

lemma splitOn_sep: "splitOn c (xs @ c # ys) = splitOn c xs @ splitOn c ys"
  by (induction xs) (auto split: list.splits simp: splitOn_ne)

lemma splitOn_append_nosep:
  "c \<notin> set ys \<Longrightarrow> splitOn c (xs @ ys) = butlast (splitOn c xs) @ [last (splitOn c xs) @ ys]"
  by (induction xs) (auto split: list.splits simp: splitOn_ne splitOn_nosep)

lemma normalizeSegments_append:
  "normalizeSegments up st (A @ B) = normalizeSegments up (rev (normalizeSegments up st A)) B"
  by (induction up st A rule: normalizeSegments.induct) (auto split: list.splits)

lemma joinWith_snoc: "\<exists>pre. joinWith sep (xs @ [n]) = pre @ n"
  by (induction sep xs rule: joinWith.induct) auto

lemma normalizeString_ends:
  assumes "CHR ''/'' \<notin> set ys" and "3 \<le> length ys"
  shows "\<exists>pre. normalizeString (xs @ ys) up = pre @ ys"
proof -
  let ?S = "splitOn CHR ''/'' xs"
  let ?n = "last ?S @ ys"
  have n: "?n \<noteq> []" "?n \<noteq> ''.''" "?n \<noteq> ''..''"
    using assms(2) by (auto simp: append_eq_Cons_conv)
  have "normalizeSegments up [] (splitOn CHR ''/'' (xs @ ys))
        = normalizeSegments up [] (butlast ?S) @ [?n]"
    using n by (simp add: splitOn_append_nosep[OF assms(1)] normalizeSegments_append)
  then obtain pre where "normalizeString (xs @ ys) up = pre @ ?n"
    unfolding normalizeString_def using joinWith_snoc by metis
  then show ?thesis by simp
qed

lemma normalizeString_trailing:
  "normalizeString (xs @ ''/'') up = normalizeString xs up"
  by (simp add: normalizeString_def splitOn_sep normalizeSegments_append)

lemma isAbsolute_append: "isAbsolute d \<Longrightarrow> isAbsolute (d @ x)"
  by (cases d) (auto simp: isAbsolute_def)

lemma isAbsolute_ne: "isAbsolute d \<Longrightarrow> d \<noteq> []"
  by (auto simp: isAbsolute_def)

lemma join_absolute:
  assumes "isAbsolute d" "CHR ''/'' \<notin> set ys" "3 \<le> length ys"
  shows "join [d, k @ ys] = ''/'' @ normalizeString (d @ ''/'' @ k @ ys) False"
    and "\<exists>pre. join [d, k @ ys] = pre @ ys"
proof -
  obtain pre where p: "normalizeString ((d @ ''/'' @ k) @ ys) False = pre @ ys"
    using normalizeString_ends[OF assms(2,3)] by blast
  have ne: "ys \<noteq> []" using assms(3) by auto
  then have nl: "last ys \<noteq> CHR ''/''" using assms(2) last_in_set by metis
  show j: "join [d, k @ ys] = ''/'' @ normalizeString (d @ ''/'' @ k @ ys) False"
    using assms(1) p ne nl isAbsolute_ne[OF assms(1)]
    by (simp add: join_def normalizePath_def isAbsolute_append Let_def)
  show "\<exists>pre. join [d, k @ ys] = pre @ ys"
    using p by (simp add: j)
qed

lemma resolve_eq_join:
  assumes "isAbsolute d" "\<not> isAbsolute k" "CHR ''/'' \<notin> set ys" "3 \<le> length ys"
  shows "resolve cwd [d, k @ ys] = join [d, k @ ys]"
proof -
  have na: "\<not> isAbsolute (k @ ys)"
    using assms(2,3,4) by (cases k; cases ys) (auto simp: isAbsolute_def)
  have ne: "ys \<noteq> []" using assms(4) by auto
  have "resolve cwd [d, k @ ys] = ''/'' @ normalizeString ((d @ ''/'' @ k @ ys) @ ''/'') False"
    using na ne assms(1) isAbsolute_ne[OF assms(1)] by (simp add: resolve_def)
  then show ?thesis
    by (simp only: normalizeString_trailing join_absolute(1)[OF assms(1,3,4)])
qed

section \<open>Content cache\<close>

lemma map_of_replaceValue:
  "map_of m k \<noteq> None \<Longrightarrow>
   map_of (replaceValue k v m) k' = (if k' = k then Some v else map_of m k')"
  by (induction m) auto

lemma map_of_insertIndex:
  "map_of m k = None \<Longrightarrow>
   map_of (insertIndex k v m) k' = (if k' = k then Some v else map_of m k')"
  by (induction m) (auto split: if_splits)

lemma map_of_assign: "map_of (assign k v m) k' = (if k' = k then Some v else map_of m k')"
  by (auto simp: assign_def map_of_replaceValue map_of_insertIndex map_add_def
      split: option.splits)

lemma readEntry_assignEntry: "readEntry (assignEntry k e c) k = AnEntry e"
  by (simp add: readEntry_def assignEntry_def map_of_assign)

lemma assignEntry_fields:
  "cacheDir (assignEntry k e c) = cacheDir c" "disabled (assignEntry k e c) = disabled c"
  by (simp_all add: assignEntry_def)

lemma map_of_deleteKey: "map_of (deleteKey k m) k' = (if k' = k then None else map_of m k')"
  by (induction m) (auto simp: deleteKey_def)

lemma writeFile_Inr:
  "writeFile t p data = Inr t' \<Longrightarrow> t' = t\<lparr>files := (files t)(p \<mapsto> data)\<rparr>"
  by (auto simp: writeFile_def split: if_splits)

lemma resolveLoop_cwd:
  "isAbsolute cwd \<Longrightarrow> snd (resolveLoop (ps @ [cwd]) acc) = True"
  by (induction ps acc rule: resolveLoop.induct) (auto simp: isAbsolute_def)

lemma resolve_absolute: "isAbsolute cwd \<Longrightarrow> isAbsolute (resolve cwd args)"
  using resolveLoop_cwd[of cwd "rev args" "[]"]
  by (auto simp: resolve_def isAbsolute_def split: prod.splits)

text \<open>The constructor resolves the cache directory, so it is an absolute path.\<close>

lemma newScreenshotCache_absolute:
  "isAbsolute cwd \<Longrightarrow> isAbsolute (cacheDir (newScreenshotCache cwd dir dis))"
  by (simp add: newScreenshotCache_def resolve_absolute)

text \<open>A disabled cache reports a miss on every lookup and touches nothing.\<close>

lemma getCached_disabled: "disabled c \<Longrightarrow> getCached cwd k c t = (Inr None, c, t)"
  by (simp add: getCached_def)

lemma demo_paths:
  "join [''/work/cache'', ''0123456789abcdef.png''] = ''/work/cache/0123456789abcdef.png''"
  "join [''/work/cache'', ''manifest.json''] = ''/work/cache/manifest.json''"
  "resolve ''/work'' [''/work/cache'', ''0123456789abcdef.png'']
     = ''/work/cache/0123456789abcdef.png''"
  "resolve ''/work'' [''cache''] = ''/work/cache''"
  "parent ''/work/cache/0123456789abcdef.png'' = ''/work/cache''"
  "parent ''/work/cache/manifest.json'' = ''/work/cache''"
  by (simp_all add: join_def resolve_def normalizePath_def normalizeString_def isAbsolute_def
      parent_def)

lemma demo_caches:
  "enabledCache
   = \<lparr>cacheDir = ''/work/cache'', manifest = [], entriesPrototype = None, disabled = False\<rparr>"
  "disabledCache
   = \<lparr>cacheDir = ''/work/cache'', manifest = [], entriesPrototype = None, disabled = True\<rparr>"
  by (simp_all add: enabledCache_def disabledCache_def newScreenshotCache_def demo_paths)

lemma demo_setCached:
  "setCached demoDoc 1700000000000 demoKey ''PNG'' ''https://example.com/'' mobile
     \<lparr>cacheDir = ''/work/cache'', manifest = [], entriesPrototype = None, disabled = dis\<rparr>
     emptyCacheDir
   = (Inr ''/work/cache/0123456789abcdef.png'',
      \<lparr>cacheDir = ''/work/cache'', manifest = [(demoKey, demoEntry)],
       entriesPrototype = None, disabled = dis\<rparr>,
      \<lparr>files = [''/work/cache/0123456789abcdef.png'' \<mapsto> ''PNG'',
                ''/work/cache/manifest.json'' \<mapsto> ''0123456789abcdef:0123456789abcdef.png;''],
       dirs = {''/'', ''/work'', ''/work/cache''}\<rparr>)"
  by (simp add: setCached_def saveManifest_def writeFile_def demoKey_def demoEntry_def
      emptyCacheDir_def demo_paths MANIFEST_FILE_def demoDoc_def Let_def assignEntry_def
      assign_def isArrayIndex_def isDigit_def)

text \<open>
  Claim C2: with \<open>disabled = true\<close> every \<^verbatim>\<open>getCached\<close> is a miss and every
  \<^verbatim>\<open>setCached\<close> is a no-op. The lookup half holds (\<open>getCached_disabled\<close>); the
  store half does not, since \<^verbatim>\<open>setCached\<close> never reads the flag. On a disabled cache
  whose directory exists it writes the image file, adds the manifest entry and writes the
  manifest document; where the directory is missing (\<^verbatim>\<open>init\<close> skips creating it for
  a disabled cache) it throws.
\<close>

theorem setCached_disabled_not_noop:
  "disabled disabledCache \<and>
   files emptyCacheDir ''/work/cache/0123456789abcdef.png'' = None \<and>
   files emptyCacheDir ''/work/cache/manifest.json'' = None \<and>
   manifest disabledCache = [] \<and>
   setCached demoDoc 1700000000000 demoKey ''PNG'' ''https://example.com/'' mobile
     disabledCache emptyCacheDir
   = (Inr ''/work/cache/0123456789abcdef.png'',
      \<lparr>cacheDir = ''/work/cache'', manifest = [(demoKey, demoEntry)],
       entriesPrototype = None, disabled = True\<rparr>,
      \<lparr>files = [''/work/cache/0123456789abcdef.png'' \<mapsto> ''PNG'',
                ''/work/cache/manifest.json'' \<mapsto> ''0123456789abcdef:0123456789abcdef.png;''],
       dirs = {''/'', ''/work'', ''/work/cache''}\<rparr>) \<and>
   init (\<lambda>doc. None) disabledCache noCacheDir = (Inr (), disabledCache, noCacheDir) \<and>
   fst (setCached demoDoc 1700000000000 demoKey ''PNG'' ''https://example.com/'' mobile
          disabledCache noCacheDir)
   = Inl (ENOENT ''/work/cache/0123456789abcdef.png'')"
proof -
  have "fst (setCached demoDoc 1700000000000 demoKey ''PNG'' ''https://example.com/'' mobile
          disabledCache noCacheDir)
        = Inl (ENOENT ''/work/cache/0123456789abcdef.png'')"
    by (simp add: demo_caches setCached_def writeFile_def demoKey_def noCacheDir_def demo_paths
        Let_def)
  then show ?thesis
    by (simp add: demo_caches(2) demo_setCached init_def) (simp add: emptyCacheDir_def)
qed

lemma demo_proto_paths:
  "join [''/work/cache'', ''__proto__.png''] = ''/work/cache/__proto__.png''"
  "resolve ''/work'' [''/work/cache'', ''__proto__.png''] = ''/work/cache/__proto__.png''"
  "parent ''/work/cache/__proto__.png'' = ''/work/cache''"
  by (simp_all add: join_def resolve_def normalizePath_def normalizeString_def isAbsolute_def
      parent_def)

lemma demo_setCached_proto:
  "fst (snd (setCached demoDoc 1700000000000 ''__proto__'' ''PNG'' ''https://example.com/''
               mobile enabledCache emptyCacheDir)) = protoCache"
  by (simp add: setCached_def saveManifest_def writeFile_def protoCache_def protoEntry_def
      emptyCacheDir_def demo_paths demo_proto_paths MANIFEST_FILE_def demoDoc_def Let_def
      assignEntry_def demo_caches(1))

text \<open>
  Claim C6, as stated, for every manifest that maps \<open>k\<close> to an entry whose file is
  missing: \<^verbatim>\<open>getCached(k)\<close> removes the entry. It fails on a disabled cache, whose
  lookup returns before the manifest is read: the entry that \<^verbatim>\<open>setCached\<close> put there
  stays in the in-memory manifest. It fails on an enabled cache for the key
  \<^verbatim>\<open>__proto__\<close>: \<^verbatim>\<open>setCached\<close> makes its entry the prototype of \<^verbatim>\<open>entries\<close>, where
  the lookup finds it and \<^verbatim>\<open>delete\<close>, which removes own properties only, leaves it.
\<close>

theorem stale_entry_counterexample:
  "fst (snd (setCached demoDoc 1700000000000 demoKey ''PNG'' ''https://example.com/'' mobile
               disabledCache emptyCacheDir)) = staleDisabledCache \<and>
   readEntry staleDisabledCache demoKey = AnEntry demoEntry \<and>
   \<not> existsSync emptyCacheDir
        (resolve ''/work'' [cacheDir staleDisabledCache, filePath demoEntry]) \<and>
   getCached ''/work'' demoKey staleDisabledCache emptyCacheDir
     = (Inr None, staleDisabledCache, emptyCacheDir) \<and>
   fst (snd (setCached demoDoc 1700000000000 ''__proto__'' ''PNG'' ''https://example.com/''
               mobile enabledCache emptyCacheDir)) = protoCache \<and>
   readEntry protoCache ''__proto__'' = AnEntry protoEntry \<and>
   \<not> existsSync emptyCacheDir (resolve ''/work'' [cacheDir protoCache, filePath protoEntry]) \<and>
   getCached ''/work'' ''__proto__'' protoCache emptyCacheDir
     = (Inr None, protoCache, emptyCacheDir)"
proof -
  have "getCached ''/work'' ''__proto__'' protoCache emptyCacheDir
        = (Inr None, protoCache, emptyCacheDir)"
    by (simp add: getCached_def readEntry_def protoCache_def protoEntry_def demo_proto_paths
        existsSync_def emptyCacheDir_def deleteKey_def)
  moreover have "readEntry protoCache ''__proto__'' = AnEntry protoEntry"
    by (simp add: readEntry_def protoCache_def)
  moreover have
    "\<not> existsSync emptyCacheDir (resolve ''/work'' [cacheDir protoCache, filePath protoEntry])"
    by (simp add: protoCache_def protoEntry_def demo_proto_paths existsSync_def
        emptyCacheDir_def)
  moreover have "readEntry staleDisabledCache demoKey = AnEntry demoEntry"
    by (simp add: readEntry_def staleDisabledCache_def)
  moreover have
    "\<not> existsSync emptyCacheDir
         (resolve ''/work'' [cacheDir staleDisabledCache, filePath demoEntry])"
    by (simp add: staleDisabledCache_def demoEntry_def demo_paths existsSync_def
        emptyCacheDir_def)
  ultimately show ?thesis
    by (simp add: demo_caches(2) demo_setCached demo_setCached_proto staleDisabledCache_def
        getCached_def)
qed

text \<open>
  Claim C6, amended: if the cache is enabled and \<open>k\<close> is an own property of the
  in-memory manifest's \<^verbatim>\<open>entries\<close> (as is every key that \<^verbatim>\<open>setCached\<close> stored, but
  \<^verbatim>\<open>__proto__\<close>) whose entry's backing file does not exist on disk, then
  \<^verbatim>\<open>getCached(k)\<close> returns a miss (\<^verbatim>\<open>null\<close>) without throwing, removes the own
  property \<open>k\<close> (and no other) from the in-memory manifest, leaves the prototype of
  \<^verbatim>\<open>entries\<close> as it was, and leaves the file system, hence the manifest document on
  disk, as it was. Unless \<open>k\<close> is then found in the prototype chain (a name of
  \<^verbatim>\<open>Object.prototype\<close>, or any name but \<^verbatim>\<open>__proto__\<close> when the prototype is an
  entry), the next \<^verbatim>\<open>entries[k]\<close> is \<^verbatim>\<open>undefined\<close>.
\<close>

theorem stale_entry:
  assumes "\<not> disabled c" and "map_of (manifest c) k = Some e"
    and "\<not> existsSync t (resolve cwd [cacheDir c, filePath e])"
  shows "getCached cwd k c t = (Inr None, c\<lparr>manifest := deleteKey k (manifest c)\<rparr>, t)
         \<and> map_of (deleteKey k (manifest c)) k = None
         \<and> (\<forall>k'. k' \<noteq> k \<longrightarrow> map_of (deleteKey k (manifest c)) k' = map_of (manifest c) k')
         \<and> (entriesPrototype c = None \<and> k \<noteq> ''__proto__'' \<and> k \<notin> set objectPrototypeNames
              \<longrightarrow> readEntry (c\<lparr>manifest := deleteKey k (manifest c)\<rparr>) k = NoValue)"
  using assms by (simp add: getCached_def readEntry_def inherited_def map_of_deleteKey)

theorem stale_entry_witness:
  "\<not> disabled staleEnabledCache \<and>
   map_of (manifest staleEnabledCache) demoKey = Some demoEntry \<and>
   \<not> existsSync emptyCacheDir
        (resolve ''/work'' [cacheDir staleEnabledCache, filePath demoEntry]) \<and>
   getCached ''/work'' demoKey staleEnabledCache emptyCacheDir
     = (Inr None, staleEnabledCache\<lparr>manifest := []\<rparr>, emptyCacheDir) \<and>
   readEntry (staleEnabledCache\<lparr>manifest := []\<rparr>) demoKey = NoValue"
proof -
  have h1: "\<not> disabled staleEnabledCache"
    and h2: "map_of (manifest staleEnabledCache) demoKey = Some demoEntry"
    by (simp_all add: staleEnabledCache_def)
  have h3: "\<not> existsSync emptyCacheDir
              (resolve ''/work'' [cacheDir staleEnabledCache, filePath demoEntry])"
    by (simp add: staleEnabledCache_def demoEntry_def demo_paths existsSync_def
        emptyCacheDir_def)
  have d: "deleteKey demoKey (manifest staleEnabledCache) = []"
    by (simp add: staleEnabledCache_def deleteKey_def)
  have n: "entriesPrototype staleEnabledCache = None" "demoKey \<noteq> ''__proto__''"
    "demoKey \<notin> set objectPrototypeNames"
    by (simp_all add: staleEnabledCache_def demoKey_def objectPrototypeNames_def)
  from stale_entry[OF h1 h2 h3] h1 h2 h3 n show ?thesis by (simp add: d)
qed

text \<open>
  Claim C5, as stated, for every key and every buffer: \<^verbatim>\<open>setCached(k, b, ...)\<close>
  followed by \<^verbatim>\<open>getCached(k)\<close> returns \<open>b\<close>. It fails on a disabled cache: the
  store succeeds and the lookup that follows is a miss.
\<close>

theorem cache_round_trip_counterexample:
  "fst (setCached demoDoc 1700000000000 demoKey ''PNG'' ''https://example.com/'' mobile
          disabledCache emptyCacheDir) = Inr ''/work/cache/0123456789abcdef.png'' \<and>
   fst (getCached ''/work'' demoKey
          (fst (snd (setCached demoDoc 1700000000000 demoKey ''PNG'' ''https://example.com/''
                       mobile disabledCache emptyCacheDir)))
          (snd (snd (setCached demoDoc 1700000000000 demoKey ''PNG'' ''https://example.com/''
                       mobile disabledCache emptyCacheDir)))) = Inr None"
  by (simp add: demo_caches(2) demo_setCached getCached_def)

text \<open>
  Claim C5, amended: on an enabled cache (its directory absolute, as the constructor
  leaves it), for every key \<open>k\<close> that does not begin with \<open>/\<close> and every byte buffer
  \<open>b\<close>, a \<^verbatim>\<open>setCached(k, b, url, viewport)\<close> that returns, followed by
  \<^verbatim>\<open>getCached(k)\<close> with no intervening change of the cache directory, returns a
  buffer byte-identical to \<open>b\<close>, and the lookup changes neither the cache nor the disk.
\<close>

theorem cache_round_trip:
  assumes en: "\<not> disabled c" and ab: "isAbsolute (cacheDir c)" and rel: "\<not> isAbsolute k"
    and set: "setCached toDoc now k b u vp c t = (Inr p, c', t')"
  shows "getCached cwd k c' t' = (Inr (Some b), c', t')"
proof -
  let ?path = "join [cacheDir c, k @ ''.png'']"
  let ?e = "\<lparr>url = u, viewport = vp, timestamp = now, filePath = k @ ''.png''\<rparr>"
  let ?c1 = "assignEntry k ?e c"
  let ?mp = "join [cacheDir c, MANIFEST_FILE]"
  from set obtain t1 where w1: "writeFile t ?path b = Inr t1"
    and rest: "(case saveManifest toDoc ?c1 t1 of
                  Inl e \<Rightarrow> (Inl e, ?c1, t1)
                | Inr t2 \<Rightarrow> (Inr ?path, ?c1, t2)) = (Inr p, c', t')"
    by (simp add: setCached_def Let_def split: sum.splits)
  from rest have s2: "saveManifest toDoc ?c1 t1 = Inr t'" and c': "c' = ?c1"
    by (simp_all split: sum.splits)
  from s2 have w2: "writeFile t1 ?mp (toDoc (manifest ?c1)) = Inr t'"
    by (simp add: saveManifest_def assignEntry_fields)
  have slash: "CHR ''/'' \<notin> set ''.png''" "3 \<le> length ''.png''"
    "CHR ''/'' \<notin> set ''.json''" "3 \<le> length ''.json''" by simp_all
  obtain pre where e1: "?path = pre @ ''.png''"
    using join_absolute(2)[OF ab slash(1,2)] by blast
  obtain pre' where e2: "join [cacheDir c, ''manifest'' @ ''.json''] = pre' @ ''.json''"
    using join_absolute(2)[OF ab slash(3,4)] by blast
  have "last ?path \<noteq> last ?mp"
    using e1 e2 by (simp add: MANIFEST_FILE_def)
  then have ne: "?path \<noteq> ?mp" by metis
  have f: "files t' ?path = Some b"
    using writeFile_Inr[OF w1] writeFile_Inr[OF w2] ne by simp
  have r: "resolve cwd [cacheDir c', filePath ?e] = ?path"
    using resolve_eq_join[OF ab rel slash(1,2)] by (simp add: c' assignEntry_fields)
  show ?thesis
    using en f r
    by (simp add: getCached_def c' readEntry_assignEntry assignEntry_fields existsSync_def
        readFile_def)
qed

theorem cache_round_trip_witness:
  "\<not> disabled enabledCache \<and> isAbsolute (cacheDir enabledCache) \<and> \<not> isAbsolute demoKey \<and>
   (\<exists>c' t'. setCached demoDoc 1700000000000 demoKey ''PNG'' ''https://example.com/'' mobile
               enabledCache emptyCacheDir
             = (Inr ''/work/cache/0123456789abcdef.png'', c', t')
          \<and> getCached ''/work'' demoKey c' t' = (Inr (Some ''PNG''), c', t'))"
proof -
  have h: "\<not> disabled enabledCache" "isAbsolute (cacheDir enabledCache)" "\<not> isAbsolute demoKey"
    by (simp_all add: demo_caches(1) isAbsolute_def demoKey_def)
  obtain c' t' where s:
    "setCached demoDoc 1700000000000 demoKey ''PNG'' ''https://example.com/'' mobile
       enabledCache emptyCacheDir = (Inr ''/work/cache/0123456789abcdef.png'', c', t')"
    by (simp add: demo_caches(1) demo_setCached)
  from cache_round_trip[OF h s, of "''/work''"] s h show ?thesis by blast
qed

section \<open>Cache keys\<close>

lemma sortedKeys_eq: "sortedKeys = [''captureOpts'', ''url'', ''viewport'']"
  by (simp add: sortedKeys_def)

text \<open>
  The array replacer filters the properties of the nested objects too. None of the names
  of a viewport or of the capture options is in the list, so both print as \<open>{}\<close> and
  the hashed text holds the URL alone.
\<close>

lemma viewport_filtered:
  "serializeJSONProperty (Some sortedKeys) (viewportValue vp) = Some ''{}''"
proof -
  have "selectProperties (Some sortedKeys)
          [(''name'', JString (name vp)), (''width'', JNumber (width vp)),
           (''height'', JNumber (height vp))] = []"
    by (simp add: selectProperties_def sortedKeys_eq)
  then show ?thesis by (simp add: viewportValue_def)
qed

lemma property_no_key: "P \<noteq> k \<Longrightarrow> P \<notin> fst ` set (property k f v)"
  by (cases v) (simp_all add: property_def)

lemma captureOptions_filtered:
  "serializeJSONProperty (Some sortedKeys) (captureOptionsValue (Some opts)) = Some ''{}''"
proof -
  let ?ms = "property ''delay'' JNumber (delay opts)
           @ property ''waitFor'' JString (waitFor opts)
           @ property ''hideSelectors'' (\<lambda>ss. JArray (map JString ss)) (hideSelectors opts)
           @ property ''noAnimations'' JBool (noAnimations opts)
           @ property ''darkMode'' JBool (darkMode opts)
           @ property ''timeout'' JNumber (timeout opts)
           @ property ''scrollReveal'' JBool (scrollReveal opts)"
  have a: "map_of ?ms ''captureOpts'' = None"
    by (simp add: map_of_eq_None_iff property_no_key)
  have b: "map_of ?ms ''url'' = None"
    by (simp add: map_of_eq_None_iff property_no_key)
  have c: "map_of ?ms ''viewport'' = None"
    by (simp add: map_of_eq_None_iff property_no_key)
  have "selectProperties (Some sortedKeys) ?ms = []"
    using a b c by (simp add: selectProperties_def sortedKeys_eq del: map_of_append)
  then show ?thesis by (simp add: captureOptionsValue_def)
qed

lemma top_selected:
  "selectProperties (Some sortedKeys) [(''url'', a), (''viewport'', b), (''captureOpts'', c)]
   = [(''captureOpts'', c), (''url'', a), (''viewport'', b)]"
  by (simp add: selectProperties_def sortedKeys_eq)

lemma keyData_Some:
  "keyData u vp (Some opts)
   = Some (''{'' @ quoteJSONString ''captureOpts'' @ '':{},'' @ quoteJSONString ''url'' @ '':''
           @ quoteJSONString u @ '','' @ quoteJSONString ''viewport'' @ '':{}}'')"
  by (simp add: keyData_def JSON_stringify_def top_selected viewport_filtered
      captureOptions_filtered)

lemma keyData_None:
  "keyData u vp None
   = Some (''{'' @ quoteJSONString ''url'' @ '':'' @ quoteJSONString u @ '',''
           @ quoteJSONString ''viewport'' @ '':{}}'')"
  by (simp add: keyData_def JSON_stringify_def top_selected viewport_filtered
      captureOptionsValue_def)

text \<open>
  Claim C1: two capture requests that differ in the viewport width, the viewport height
  or one capture option get different cache keys. The code gives them the same key,
  whatever the hash function: requests for one URL collide for every pair of viewports
  and every pair of option objects, as do the 375x812 request without options and the
  1440x900 request with seven options set.
\<close>

theorem generateKey_ignores_viewport_and_options:
  "generateKey sha256hex u vp (Some opts) = generateKey sha256hex u vp' (Some opts') \<and>
   generateKey sha256hex u vp None = generateKey sha256hex u vp' None \<and>
   width mobile \<noteq> width desktop \<and> height mobile \<noteq> height desktop \<and>
   noOptions \<noteq> slowDarkOptions \<and>
   generateKey sha256hex ''https://example.com/'' mobile (Some noOptions)
     = generateKey sha256hex ''https://example.com/'' desktop (Some slowDarkOptions)"
  by (simp add: generateKey_def keyData_Some keyData_None mobile_def desktop_def
      noOptions_def slowDarkOptions_def)

section \<open>The doubles of JavaScript\<close>

lemma binade_bounds:
  assumes "0 < x"
  shows "2 powi binade x \<le> x" and "x < 2 powi (binade x + 1)"
proof -
  have "2 powi binade x \<le> x \<and> x < 2 powi (binade x + 1)"
  proof (cases "1 \<le> x")
    case True
    define n where "n = nat \<lfloor>x\<rfloor>"
    define k where "k = floorlog 2 n"
    have n: "0 < n" using True by (simp add: n_def)
    have b: "2 ^ (k - 1) \<le> n" "n < 2 ^ k"
      using floorlog_bounds[of n 2] n by (simp_all add: k_def)
    have k: "0 < k" using n floorlog_eq_zero_iff[of 2 n] by (auto simp: k_def)
    have e: "binade x = int k - 1" using True by (simp add: binade_def k_def n_def)
    have nx: "of_nat n \<le> x" "x < of_nat n + 1"
      using True by (simp_all add: n_def of_nat_nat) linarith+
    have "(2::rat) powi (int k - 1) = 2 ^ (k - 1)"
      using k by (metis of_nat_1 of_nat_diff power_int_of_nat Suc_leI One_nat_def)
    moreover have "(2::rat) ^ (k - 1) \<le> of_nat n"
      using b(1) by (metis of_nat_le_iff of_nat_numeral of_nat_power)
    ultimately have lo: "2 powi (int k - 1) \<le> x" using nx(1) by linarith
    have "Suc n \<le> 2 ^ k" using b(2) by simp
    then have "(of_nat (Suc n) :: rat) \<le> 2 ^ k"
      by (metis of_nat_le_iff of_nat_numeral of_nat_power)
    then have hi: "x < 2 powi (int k)" using nx(2) by simp
    show ?thesis using lo hi by (simp add: e)
  next
    case False
    define y where "y = 1 / x"
    have y: "1 < y" using False assms by (simp add: y_def)
    define m where "m = \<lceil>y\<rceil> - 1"
    have m: "1 \<le> m" using y unfolding m_def by linarith
    define n where "n = nat m"
    define k where "k = floorlog 2 n"
    have n: "0 < n" using m by (simp add: n_def)
    have b: "2 ^ (k - 1) \<le> n" "n < 2 ^ k"
      using floorlog_bounds[of n 2] n by (simp_all add: k_def)
    have k: "0 < k" using n floorlog_eq_zero_iff[of 2 n] by (auto simp: k_def)
    have e: "binade x = - int k" using False by (simp add: binade_def k_def n_def m_def y_def)
    have my: "of_nat n < y" "y \<le> of_nat n + 1"
      using m unfolding n_def m_def by (simp_all add: of_nat_nat) linarith+
    have "Suc n \<le> 2 ^ k" using b(2) by simp
    then have "(of_nat (Suc n) :: rat) \<le> 2 ^ k"
      by (metis of_nat_le_iff of_nat_numeral of_nat_power)
    then have yk: "y \<le> 2 ^ k" using my(2) by simp
    have "(2::rat) ^ (k - 1) \<le> of_nat n"
      using b(1) by (metis of_nat_le_iff of_nat_numeral of_nat_power)
    then have ky: "2 ^ (k - 1) < y" using my(1) by linarith
    have xy: "x = 1 / y" using assms by (simp add: y_def)
    have lo: "2 powi (- int k) \<le> x"
      using yk y by (simp add: xy power_int_minus field_simps)
    have "(2::rat) powi (- int k + 1) = 1 / 2 ^ (k - 1)"
    proof -
      have "- int k + 1 = - int (k - 1)" using k by simp
      then have "(2::rat) powi (- int k + 1) = 2 powi (- int (k - 1))" by (rule arg_cong)
      also have "\<dots> = inverse (2 ^ (k - 1))"
        by (simp only: power_int_minus power_int_of_nat)
      finally show ?thesis by (simp add: divide_inverse)
    qed
    moreover have "x < 1 / 2 ^ (k - 1)"
      using ky y by (simp add: xy field_simps)
    ultimately have hi: "x < 2 powi (- int k + 1)" by simp
    show ?thesis using lo hi by (simp add: e)
  qed
  then show "2 powi binade x \<le> x" and "x < 2 powi (binade x + 1)" by simp_all
qed

lemma powi_less_cancel:
  assumes "2 powi m < (2::rat) powi n"
  shows "m < n"
proof (rule ccontr)
  assume "\<not> m < n"
  then have "n \<le> m" by simp
  then have "(2::rat) powi n \<le> 2 powi m" by (intro power_int_increasing) simp_all
  with assms show False by simp
qed

lemma binade_unique:
  assumes "0 < x" and lo: "2 powi e \<le> x" and hi: "x < 2 powi (e + 1)"
  shows "binade x = e"
proof -
  have "2 powi e < (2::rat) powi (binade x + 1)"
    using lo binade_bounds(2)[OF assms(1)] by linarith
  then have a: "e < binade x + 1" by (rule powi_less_cancel)
  have "2 powi binade x < (2::rat) powi (e + 1)"
    using hi binade_bounds(1)[OF assms(1)] by linarith
  then have b: "binade x < e + 1" by (rule powi_less_cancel)
  from a b show ?thesis by simp
qed

lemma roundHalfEven_near: "\<bar>of_int (roundHalfEven y) - y\<bar> \<le> 1 / 2"
proof -
  define f where "f = \<lfloor>y\<rfloor>"
  have b: "of_int f \<le> y" "y < of_int f + 1" unfolding f_def by linarith+
  consider "y - of_int f < 1 / 2" | "1 / 2 < y - of_int f" | "y - of_int f = 1 / 2"
    by linarith
  then show ?thesis
  proof cases
    case 1
    then have "roundHalfEven y = f" by (simp add: roundHalfEven_def f_def)
    with 1 b show ?thesis by simp
  next
    case 2
    then have "roundHalfEven y = f + 1" by (simp add: roundHalfEven_def f_def)
    with 2 b show ?thesis by simp
  next
    case 3
    then have "roundHalfEven y = f \<or> roundHalfEven y = f + 1"
      by (simp add: roundHalfEven_def f_def Let_def)
    with 3 b show ?thesis by auto
  qed
qed

lemma fl_positive_eq:
  assumes "0 < x"
  shows "fl x = of_int (roundHalfEven (x / 2 powi (binade x - 52))) * 2 powi (binade x - 52)"
  using assms by (simp add: fl_def Let_def)

lemma fl_error:
  assumes "0 < x"
  shows "\<bar>fl x - x\<bar> \<le> 2 powi (binade x - 53)"
proof -
  define u :: rat where "u = 2 powi (binade x - 52)"
  have u: "0 < u" by (simp add: u_def)
  have "\<bar>of_int (roundHalfEven (x / u)) - x / u\<bar> \<le> 1 / 2" by (rule roundHalfEven_near)
  then have "\<bar>of_int (roundHalfEven (x / u)) - x / u\<bar> * u \<le> 1 / 2 * u"
    using u by (intro mult_right_mono) simp_all
  moreover have "\<bar>of_int (roundHalfEven (x / u)) - x / u\<bar> * u
                 = \<bar>of_int (roundHalfEven (x / u)) * u - x\<bar>"
  proof -
    have "\<bar>of_int (roundHalfEven (x / u)) - x / u\<bar> * u
          = \<bar>(of_int (roundHalfEven (x / u)) - x / u) * u\<bar>"
      using u by (simp add: abs_mult)
    also have "(of_int (roundHalfEven (x / u)) - x / u) * u
               = of_int (roundHalfEven (x / u)) * u - x"
      using u by (simp add: left_diff_distrib)
    finally show ?thesis .
  qed
  moreover have "1 / 2 * u = 2 powi (binade x - 53)"
  proof -
    have "binade x - 52 = (binade x - 53) + 1" by simp
    then have "u = 2 powi ((binade x - 53) + 1)" unfolding u_def by (rule arg_cong)
    also have "\<dots> = 2 powi (binade x - 53) * 2" by (subst power_int_add) simp_all
    finally show ?thesis by simp
  qed
  ultimately have "\<bar>of_int (roundHalfEven (x / u)) * u - x\<bar> \<le> 2 powi (binade x - 53)"
    by (simp only:)
  then show ?thesis unfolding fl_positive_eq[OF assms] u_def .
qed

lemma fl_eval:
  assumes "0 < x" and "2 powi e \<le> x" and "x < 2 powi (e + 1)"
  shows "fl x = of_int (roundHalfEven (x / 2 powi (e - 52))) * 2 powi (e - 52)"
  using fl_positive_eq[OF assms(1)] binade_unique[OF assms] by simp

lemma floor_numeral_divide:
  "\<lfloor>(numeral a :: rat) / numeral b\<rfloor> = numeral a div numeral b"
  using floor_divide_of_int_eq[of "numeral a" "numeral b", where ?'a = rat] by simp

lemma fl_scaled:
  assumes "0 < x" and lo: "2 ^ 52 \<le> x * 2 ^ n" and hi: "x * 2 ^ n < 2 ^ 53"
  shows "fl x = of_int (roundHalfEven (x * 2 ^ n)) / 2 ^ n"
proof -
  have p: "(2::rat) powi (52 - int n) * 2 ^ n = 2 ^ 52"
  proof -
    have "(2::rat) powi (52 - int n) * 2 powi (int n) = 2 powi (52 - int n + int n)"
      by (subst power_int_add) simp_all
    then show ?thesis by simp
  qed
  have q: "(2::rat) powi (52 - int n + 1) * 2 ^ n = 2 ^ 53"
  proof -
    have "(2::rat) powi (52 - int n + 1) * 2 powi (int n) = 2 powi (52 - int n + 1 + int n)"
      by (subst power_int_add) simp_all
    then show ?thesis by simp
  qed
  have pos: "(0::rat) < 2 ^ n" by simp
  have "2 powi (52 - int n) * 2 ^ n \<le> x * 2 ^ n" using lo p by simp
  then have a: "2 powi (52 - int n) \<le> x" using pos by (simp only: mult_le_cancel_right_pos)
  have "x * 2 ^ n < 2 powi (52 - int n + 1) * 2 ^ n" using hi q by simp
  then have b: "x < 2 powi (52 - int n + 1)" using pos by (simp only: mult_less_cancel_right_pos)
  have "52 - int n - 52 = - int n" by simp
  then have "(2::rat) powi (52 - int n - 52) = 2 powi (- int n)" by (rule arg_cong)
  also have "\<dots> = 1 / 2 ^ n" by (simp add: power_int_minus divide_inverse)
  finally have u: "(2::rat) powi (52 - int n - 52) = 1 / 2 ^ n" .
  show ?thesis
    unfolding fl_eval[OF assms(1) a b] u by simp
qed

lemma roundHalfEven_numeral [simp]: "roundHalfEven (numeral a) = numeral a"
  by (simp add: roundHalfEven_def)

lemma roundHalfEven_divide:
  assumes "0 < b"
  shows "roundHalfEven (of_int a / of_int b)
         = (if 2 * (a mod b) < b then a div b
            else if b < 2 * (a mod b) then a div b + 1
            else if even (a div b) then a div b else a div b + 1)"
proof -
  have f: "\<lfloor>(of_int a :: rat) / of_int b\<rfloor> = a div b" by (rule floor_divide_of_int_eq)
  have "(of_int a :: rat) = of_int (a div b * b + a mod b)" by simp
  also have "\<dots> = of_int (a div b) * of_int b + of_int (a mod b)"
    by (simp only: of_int_add of_int_mult)
  finally have "(of_int a :: rat) / of_int b - of_int (a div b) = of_int (a mod b) / of_int b"
    using assms by (simp add: field_simps)
  then have d: "(of_int a :: rat) / of_int b - of_int \<lfloor>(of_int a :: rat) / of_int b\<rfloor>
                = of_int (a mod b) / of_int b" by (simp only: f)
  have lt: "(of_int (a mod b) :: rat) / of_int b < 1 / 2 \<longleftrightarrow> 2 * (a mod b) < b"
  proof -
    have "(of_int (a mod b) :: rat) / of_int b < 1 / 2
          \<longleftrightarrow> (of_int (2 * (a mod b)) :: rat) < of_int b"
      using assms by (simp add: field_simps)
    then show ?thesis by (simp only: of_int_less_iff)
  qed
  have gt: "1 / 2 < (of_int (a mod b) :: rat) / of_int b \<longleftrightarrow> b < 2 * (a mod b)"
  proof -
    have "1 / 2 < (of_int (a mod b) :: rat) / of_int b
          \<longleftrightarrow> (of_int b :: rat) < of_int (2 * (a mod b))"
      using assms by (simp add: field_simps)
    then show ?thesis by (simp only: of_int_less_iff)
  qed
  have "roundHalfEven (of_int a / of_int b)
        = (if (of_int (a mod b) :: rat) / of_int b < 1 / 2 then a div b
           else if 1 / 2 < (of_int (a mod b) :: rat) / of_int b then a div b + 1
           else if even (a div b) then a div b else a div b + 1)"
    unfolding roundHalfEven_def Let_def d unfolding f ..
  then show ?thesis unfolding lt gt .
qed

lemma roundHalfEven_numeral_divide:
  "roundHalfEven (numeral a / numeral b)
   = (if 2 * (numeral a mod numeral b) < (numeral b :: int) then numeral a div numeral b
      else if (numeral b :: int) < 2 * (numeral a mod numeral b) then numeral a div numeral b + 1
      else if even (numeral a div numeral b :: int) then numeral a div numeral b
      else numeral a div numeral b + 1)"
  using roundHalfEven_divide[of "numeral b" "numeral a"] by simp


lemma powi_minus_53: "(2::rat) powi (e - 53) = 2 powi e / 2 ^ 53"
proof -
  have "e - 53 = e + (- 53)" by simp
  then have "(2::rat) powi (e - 53) = 2 powi (e + (- 53))" by (rule arg_cong)
  also have "\<dots> = 2 powi e * 2 powi (- 53)" by (subst power_int_add) simp_all
  also have "(2::rat) powi (- 53) = 1 / 2 ^ 53"
    by (simp only: power_int_minus power_int_numeral inverse_eq_divide)
  finally show ?thesis by simp
qed

lemma fl_relative:
  assumes "0 < x"
  shows "\<bar>fl x - x\<bar> \<le> x / 2 ^ 53"
proof -
  have "(2::rat) powi binade x / 2 ^ 53 \<le> x / 2 ^ 53"
    using binade_bounds(1)[OF assms] by (intro divide_right_mono) simp_all
  then have "(2::rat) powi (binade x - 53) \<le> x / 2 ^ 53" by (simp only: powi_minus_53)
  with fl_error[OF assms] show ?thesis by (rule order_trans)
qed

lemma fl_bounds:
  assumes "0 < x"
  shows "x * (1 - 1 / 2 ^ 53) \<le> fl x" and "fl x \<le> x * (1 + 1 / 2 ^ 53)"
proof -
  have "\<bar>fl x - x\<bar> \<le> x / 9007199254740992" using fl_relative[OF assms] by simp
  then have "fl x - x \<le> x / 9007199254740992" "x - fl x \<le> x / 9007199254740992"
    by linarith+
  then show "x * (1 - 1 / 2 ^ 53) \<le> fl x" and "fl x \<le> x * (1 + 1 / 2 ^ 53)"
    by (simp_all add: algebra_simps)
qed

lemma fl_pos:
  assumes "0 < x"
  shows "0 < fl x"
proof -
  have "0 < x * (1 - 1 / 2 ^ 53)" using assms by (intro mult_pos_pos) simp_all
  with fl_bounds(1)[OF assms] show ?thesis by linarith
qed

lemma fl_twice:
  fixes c y z :: rat
  assumes c: "0 \<le> c" "c \<le> 7800"
    and y: "c * (1 - 1 / 2 ^ 53) \<le> y" "y \<le> c * (1 + 1 / 2 ^ 53)"
    and z: "y * (1 - 1 / 2 ^ 53) \<le> z" "z \<le> y * (1 + 1 / 2 ^ 53)"
  shows "\<bar>z - c\<bar> \<le> 1 / 2 ^ 38"
proof -
  have "y * (1 + 1 / 2 ^ 53) \<le> c * (1 + 1 / 2 ^ 53) * (1 + 1 / 2 ^ 53)"
    using y(2) by (intro mult_right_mono) simp_all
  with z(2) have hi: "z \<le> c * (1 + 1 / 2 ^ 53) * (1 + 1 / 2 ^ 53)" by linarith
  have "c * (1 - 1 / 2 ^ 53) * (1 - 1 / 2 ^ 53) \<le> y * (1 - 1 / 2 ^ 53)"
    using y(1) by (intro mult_right_mono) simp_all
  with z(1) have lo: "c * (1 - 1 / 2 ^ 53) * (1 - 1 / 2 ^ 53) \<le> z" by linarith
  have "z - c \<le> 1 / 2 ^ 38" using hi c by simp
  moreover have "c - z \<le> 1 / 2 ^ 38" using lo c by simp
  ultimately show ?thesis by (simp only: abs_le_iff minus_diff_eq)
qed

section \<open>Image normalizer\<close>

lemma mathRound_of_int [simp]: "mathRound (of_int n) = n"
  unfolding mathRound_def by linarith

lemma mathRound_near: "\<bar>of_int (mathRound x) - x\<bar> \<le> 1 / 2"
  unfolding mathRound_def by linarith

lemma mathRound_close:
  assumes "\<bar>z - of_int n\<bar> \<le> 1 / 2 ^ 38"
  shows "mathRound z = n"
proof -
  have "(1::rat) / 2 ^ 38 < 1 / 2" by simp
  with assms have "\<bar>z - of_int n\<bar> < 1 / 2" by linarith
  then show ?thesis unfolding mathRound_def by linarith
qed

lemma mathRound_below:
  assumes "\<bar>z - c\<bar> \<le> 1 / 2 ^ 38" and "c \<le> of_int n"
  shows "mathRound z \<le> n"
proof -
  have "(1::rat) / 2 ^ 38 < 1 / 2" by simp
  with assms have "z < of_int n + 1 / 2" by linarith
  then show ?thesis unfolding mathRound_def by linarith
qed

lemma scaleFactor_bounds:
  assumes w: "0 < w" and h: "0 < h"
  defines "t \<equiv> min (of_int MAX_IMAGE_DIMENSION / of_int w)
                     (of_int MAX_IMAGE_DIMENSION / of_int h) :: rat"
  shows "t * (1 - 1 / 2 ^ 53) \<le> scaleFactor w h"
    and "scaleFactor w h \<le> t * (1 + 1 / 2 ^ 53)"
proof -
  let ?p = "of_int MAX_IMAGE_DIMENSION / of_int w :: rat"
  let ?q = "of_int MAX_IMAGE_DIMENSION / of_int h :: rat"
  have p: "0 < ?p" and q: "0 < ?q" using w h by (simp_all add: MAX_IMAGE_DIMENSION_def)
  have s: "scaleFactor w h = min (fl ?p) (fl ?q)" using w h by (simp add: scaleFactor_def)
  have "t * (1 - 1 / 2 ^ 53) \<le> ?p * (1 - 1 / 2 ^ 53)"
    unfolding t_def by (intro mult_right_mono) simp_all
  then have a: "t * (1 - 1 / 2 ^ 53) \<le> fl ?p" using fl_bounds(1)[OF p] by linarith
  have "t * (1 - 1 / 2 ^ 53) \<le> ?q * (1 - 1 / 2 ^ 53)"
    unfolding t_def by (intro mult_right_mono) simp_all
  then have b: "t * (1 - 1 / 2 ^ 53) \<le> fl ?q" using fl_bounds(1)[OF q] by linarith
  from a b show "t * (1 - 1 / 2 ^ 53) \<le> scaleFactor w h" by (simp add: s)
  show "scaleFactor w h \<le> t * (1 + 1 / 2 ^ 53)"
  proof (cases "?p \<le> ?q")
    case True
    then have "t = ?p" by (simp add: t_def)
    with fl_bounds(2)[OF p] show ?thesis by (simp add: s min_le_iff_disj)
  next
    case False
    then have "t = ?q" by (simp add: t_def)
    with fl_bounds(2)[OF q] show ?thesis by (simp add: s min_le_iff_disj)
  qed
qed

lemma scaled_side:
  assumes w: "0 < w" and h: "0 < h" and k: "0 < k"
  defines "t \<equiv> min (of_int MAX_IMAGE_DIMENSION / of_int w)
                     (of_int MAX_IMAGE_DIMENSION / of_int h) :: rat"
  assumes c: "of_int k * t \<le> 7800"
  shows "\<bar>fl (of_int k * scaleFactor w h) - of_int k * t\<bar> \<le> 1 / 2 ^ 38"
proof -
  let ?s = "scaleFactor w h"
  have t: "0 < t" using w h by (simp add: t_def MAX_IMAGE_DIMENSION_def)
  have kq: "0 < (of_int k :: rat)" using k by simp
  have lo: "t * (1 - 1 / 2 ^ 53) \<le> ?s" and hi: "?s \<le> t * (1 + 1 / 2 ^ 53)"
    using scaleFactor_bounds[OF w h] by (simp_all add: t_def)
  have "0 < t * (1 - 1 / 2 ^ 53)" using t by (intro mult_pos_pos) simp_all
  with lo have s: "0 < ?s" by linarith
  have y: "0 < of_int k * ?s" using kq s by (rule mult_pos_pos)
  have "of_int k * (t * (1 - 1 / 2 ^ 53)) \<le> of_int k * ?s"
    using lo kq by (intro mult_left_mono) simp_all
  then have y1: "of_int k * t * (1 - 1 / 2 ^ 53) \<le> of_int k * ?s"
    by (simp only: mult.assoc)
  have "of_int k * ?s \<le> of_int k * (t * (1 + 1 / 2 ^ 53))"
    using hi kq by (intro mult_left_mono) simp_all
  then have y2: "of_int k * ?s \<le> of_int k * t * (1 + 1 / 2 ^ 53)"
    by (simp only: mult.assoc)
  have c0: "0 \<le> of_int k * t" using kq t by simp
  show ?thesis
    by (rule fl_twice[OF c0 c y1 y2 fl_bounds[OF y]])
qed

lemma exact_sides:
  assumes w: "0 < w" and h: "0 < h"
    and big: "MAX_IMAGE_DIMENSION < w \<or> MAX_IMAGE_DIMENSION < h"
  defines "t \<equiv> min (of_int MAX_IMAGE_DIMENSION / of_int w)
                     (of_int MAX_IMAGE_DIMENSION / of_int h) :: rat"
  shows "of_int w * t \<le> 7800" and "of_int h * t \<le> 7800"
    and "of_int w * t = 7800 \<or> of_int h * t = 7800"
proof -
  have wq: "0 < (of_int w :: rat)" and hq: "0 < (of_int h :: rat)" using w h by simp_all
  have "of_int w * t \<le> of_int w * (7800 / of_int w)"
    unfolding t_def MAX_IMAGE_DIMENSION_def using wq by (intro mult_left_mono) simp_all
  then show "of_int w * t \<le> 7800" using wq by simp
  have "of_int h * t \<le> of_int h * (7800 / of_int h)"
    unfolding t_def MAX_IMAGE_DIMENSION_def using hq by (intro mult_left_mono) simp_all
  then show "of_int h * t \<le> 7800" using hq by simp
  have "t = 7800 / of_int w \<or> t = 7800 / of_int h"
    by (simp add: t_def MAX_IMAGE_DIMENSION_def min_def)
  then show "of_int w * t = 7800 \<or> of_int h * t = 7800" using wq hq by auto
qed

lemma scaled_sides:
  assumes w: "0 < w" and h: "0 < h"
    and big: "MAX_IMAGE_DIMENSION < w \<or> MAX_IMAGE_DIMENSION < h"
  defines "s \<equiv> scaleFactor w h"
  shows "max (mathRound (fl (of_int w * s))) (mathRound (fl (of_int h * s)))
         = MAX_IMAGE_DIMENSION"
proof -
  define t :: rat where "t = min (of_int MAX_IMAGE_DIMENSION / of_int w)
                                 (of_int MAX_IMAGE_DIMENSION / of_int h)"
  note e = exact_sides[OF w h big, folded t_def]
  have nw: "\<bar>fl (of_int w * s) - of_int w * t\<bar> \<le> 1 / 2 ^ 38"
    unfolding s_def t_def by (rule scaled_side[OF w h w e(1)[unfolded t_def]])
  have nh: "\<bar>fl (of_int h * s) - of_int h * t\<bar> \<le> 1 / 2 ^ 38"
    unfolding s_def t_def by (rule scaled_side[OF w h h e(2)[unfolded t_def]])
  have lw: "mathRound (fl (of_int w * s)) \<le> 7800"
    using mathRound_below[OF nw, of 7800] e(1) by simp
  have lh: "mathRound (fl (of_int h * s)) \<le> 7800"
    using mathRound_below[OF nh, of 7800] e(2) by simp
  from e(3) have "mathRound (fl (of_int w * s)) = 7800 \<or> mathRound (fl (of_int h * s)) = 7800"
  proof
    assume "of_int w * t = 7800"
    with nw have "\<bar>fl (of_int w * s) - of_int 7800\<bar> \<le> 1 / 2 ^ 38" by simp
    then show ?thesis using mathRound_close by blast
  next
    assume "of_int h * t = 7800"
    with nh have "\<bar>fl (of_int h * s) - of_int 7800\<bar> \<le> 1 / 2 ^ 38" by simp
    then show ?thesis using mathRound_close by blast
  qed
  with lw lh show ?thesis by (auto simp: MAX_IMAGE_DIMENSION_def max_def)
qed

lemma qualityLoop_unfold:
  "qualityLoop png cur cur 80 =
     (if byteLength cur \<le> MAX_IMAGE_BYTES then cur
      else if byteLength (reencode png 80 cur) \<le> MAX_IMAGE_BYTES then reencode png 80 cur
      else if byteLength (reencode png 70 cur) \<le> MAX_IMAGE_BYTES then reencode png 70 cur
      else if byteLength (reencode png 60 cur) \<le> MAX_IMAGE_BYTES then reencode png 60 cur
      else if byteLength (reencode png 50 cur) \<le> MAX_IMAGE_BYTES then reencode png 50 cur
      else if byteLength (reencode png 40 cur) \<le> MAX_IMAGE_BYTES then reencode png 40 cur
      else reencode png 30 cur)"
  by (simp add: qualityLoop.simps[of _ _ _ 80] qualityLoop.simps[of _ _ _ 70]
      qualityLoop.simps[of _ _ _ 60] qualityLoop.simps[of _ _ _ 50]
      qualityLoop.simps[of _ _ _ 40] qualityLoop.simps[of _ _ _ 30]
      qualityLoop.simps[of _ _ _ 20])

lemma fl_seven_tenths: "fl (7 / 10) = 3152519739159347 / 4503599627370496"
  by (subst fl_scaled[of _ 53]) (simp_all add: roundHalfEven_numeral_divide)

lemma seven_tenths_bounds:
  assumes "0 < w"
  shows "1 / 2 < fl (of_int w * fl (7 / 10))"
    and "fl (of_int w * fl (7 / 10)) < of_int w + 1 / 2"
proof -
  let ?y = "of_int w * fl (7 / 10) :: rat"
  have w1: "1 \<le> (of_int w :: rat)" using assms by (simp add: less_le_not_le)
  have y: "0 < ?y" using w1 by (simp add: fl_seven_tenths)
  have lo: "69 / 100 \<le> ?y" and hi: "?y \<le> 71 / 100 * of_int w"
    using w1 by (simp_all add: fl_seven_tenths)
  have "69 / 100 * (1 - 1 / 2 ^ 53) \<le> ?y * (1 - 1 / 2 ^ 53)"
    using lo by (intro mult_right_mono) simp_all
  with fl_bounds(1)[OF y] show "1 / 2 < fl ?y" by simp
  have "?y * (1 + 1 / 2 ^ 53) \<le> 71 / 100 * of_int w * (1 + 1 / 2 ^ 53)"
    using hi by (intro mult_right_mono) simp_all
  with fl_bounds(2)[OF y] have "fl ?y \<le> 71 / 100 * of_int w * (1 + 1 / 2 ^ 53)" by linarith
  with w1 show "fl ?y < of_int w + 1 / 2" by simp
qed

lemma mathRound_seven_tenths:
  "0 < w \<Longrightarrow> 0 < mathRound (fl (of_int w * fl (7 / 10)))"
  using seven_tenths_bounds(1)[of w] unfolding mathRound_def by linarith

lemma mathRound_seven_tenths_le:
  "0 < w \<Longrightarrow> mathRound (fl (of_int w * fl (7 / 10))) \<le> w"
  using seven_tenths_bounds(2)[of w] unfolding mathRound_def by linarith

lemma enforceBytes_result:
  assumes "0 < imgWidth cur"
  shows "enforceBytes png cur
         = Inr (case firstWithin (encodingsTried png cur) of
                  Some c \<Rightarrow> c | None \<Rightarrow> lastResort png cur)"
  using mathRound_seven_tenths[OF assms]
  by (simp add: enforceBytes_def qualityLoop_unfold firstWithin_def encodingsTried_def
      resizeWidth_def lastResort_def Let_def)

lemma firstWithin_Some:
  "firstWithin cs = Some c \<Longrightarrow> c \<in> set cs \<and> byteLength c \<le> MAX_IMAGE_BYTES"
  unfolding firstWithin_def by (induction cs) (auto split: if_splits)

lemma mathRound_mono: "x \<le> y \<Longrightarrow> mathRound x \<le> mathRound y"
  unfolding mathRound_def by (simp add: floor_mono)

lemma autoHeight_le:
  assumes "0 < imgWidth cur" "0 < imgHeight cur" "0 \<le> w" "w \<le> imgWidth cur"
  shows "autoHeight cur w \<le> imgHeight cur"
proof -
  have wq: "0 < (of_int (imgWidth cur) :: rat)" using assms(1) by simp
  have "(of_int w :: rat) / of_int (imgWidth cur) \<le> 1"
    using assms(4) wq by simp
  then have "of_int (imgHeight cur) * ((of_int w :: rat) / of_int (imgWidth cur))
             \<le> of_int (imgHeight cur) * 1"
    using assms(2) by (intro mult_left_mono) simp_all
  then have "mathRound (of_int (imgHeight cur) * of_int w / of_int (imgWidth cur))
             \<le> mathRound (of_int (imgHeight cur))"
    by (intro mathRound_mono) simp
  then show ?thesis using assms(2) by (simp add: autoHeight_def)
qed

lemma encodingsTried_sides:
  assumes "c \<in> set (encodingsTried png cur)"
  shows "c = lastResort png cur \<or> (imgWidth c = imgWidth cur \<and> imgHeight c = imgHeight cur)"
  using assms by (auto simp: encodingsTried_def reencode_def)

lemmas fl_steps = fl_scaled[of _ 40] fl_scaled[of _ 42] fl_scaled[of _ 43] fl_scaled[of _ 44]
  fl_scaled[of _ 46] fl_scaled[of _ 48] fl_scaled[of _ 50] fl_scaled[of _ 53]
  fl_scaled[of _ 54] roundHalfEven_numeral_divide

lemmas normalizer_eval = enforceDimensions_def enforceBytes_def resizeIfNeeded_def
  MAX_IMAGE_DIMENSION_def MAX_IMAGE_BYTES_def scaleFactor_def mathRound_def resizeBoth_def
  resizeWidth_def reencode_def autoHeight_def Let_def floor_numeral_divide qualityLoop_unfold
  fl_steps

lemma double_rounding_examples:
  "mathRound (fl (725 * fl (7 / 10))) = 507"
  "mathRound (fl (11 * scaleFactor 11 11440)) = 7"
  "mathRound (fl (1366 * scaleFactor 1366 21856)) = 487"
  "mathRound (fl (390 * scaleFactor 390 27040)) = 112"
  by (simp_all add: normalizer_eval)

lemma demo_noisyPage:
  "resizeIfNeeded noisePng noisyPage
   = Inr \<lparr>imgWidth = 1344, imgHeight = 5460, byteLength = 7338240\<rparr>"
  by (simp add: normalizer_eval noisyPage_def noisePng_def)

lemma demo_squareNoise:
  "resizeIfNeeded noisePng squareNoise
   = Inr \<lparr>imgWidth = 5460, imgHeight = 5460, byteLength = 29811600\<rparr>"
  by (simp add: normalizer_eval squareNoise_def noisePng_def)

lemma demo_hairline: "resizeIfNeeded noisePng hairline = Inl (InvalidParameter ''height'' 0)"
  by (simp add: normalizer_eval hairline_def noisePng_def)

lemma demo_longPage:
  "enforceDimensions flatPng longPage
   = Inr \<lparr>imgWidth = 480, imgHeight = 7800, byteLength = 37440\<rparr>"
  "resizeIfNeeded flatPng longPage
   = Inr \<lparr>imgWidth = 480, imgHeight = 7800, byteLength = 37440\<rparr>"
  by (simp_all add: normalizer_eval longPage_def flatPng_def)

text \<open>
  Claim C3: for every input image over the byte limit \<open>S\<close> the output of the
  normalizer is at most \<open>S\<close>. The code does not achieve it. For a 1920x7800 picture
  that does not compress, the image as given and its re-encodings at quality 80 down
  to 30 are all above \<open>S\<close>, and the encoding made last, at
  \<^verbatim>\<open>Math.round(1920 * 0.7)\<close> = 1344 pixels of width and quality 60, is returned
  without a test of its length: 7338240 bytes, above the 5242880 allowed.
\<close>

theorem normalizer_size_exceeded:
  "MAX_IMAGE_BYTES < byteLength noisyPage \<and>
   resizeIfNeeded noisePng noisyPage
     = Inr \<lparr>imgWidth = 1344, imgHeight = 5460, byteLength = 7338240\<rparr> \<and>
   MAX_IMAGE_BYTES < 7338240"
  by (simp add: demo_noisyPage) (simp add: MAX_IMAGE_BYTES_def noisyPage_def)

text \<open>
  Claim C9, as stated, for every input image with a side over \<open>D\<close>: the output
  measures \<open>round(width\<cdot>s)\<close> by \<open>round(height\<cdot>s)\<close>. It fails for a
  10000x10000 picture that does not compress: the pixel phase makes it 7800x7800, and
  the size phase then returns it at 5460x5460. It also fails for a 20000x1 image, whose
  height rounds to 0: the resize request is rejected and there is no output.
\<close>

theorem normalizer_dimensions_counterexample:
  "MAX_IMAGE_DIMENSION < imgWidth squareNoise \<and>
   mathRound (fl (of_int (imgWidth squareNoise)
                  * scaleFactor (imgWidth squareNoise) (imgHeight squareNoise))) = 7800 \<and>
   resizeIfNeeded noisePng squareNoise
     = Inr \<lparr>imgWidth = 5460, imgHeight = 5460, byteLength = 29811600\<rparr> \<and>
   MAX_IMAGE_DIMENSION < imgWidth hairline \<and>
   resizeIfNeeded noisePng hairline = Inl (InvalidParameter ''height'' 0)"
  by (simp add: demo_squareNoise demo_hairline)
     (simp add: squareNoise_def hairline_def normalizer_eval)

text \<open>
  Claim C9, amended: for every input image with positive sides below \<open>2\<^sup>3\<^sup>1\<close>, one
  of them exceeding \<open>D\<close> (7800 px), on which the normalizer returns, the pixel phase
  resizes to \<^verbatim>\<open>Math.round(width * s)\<close> by \<^verbatim>\<open>Math.round(height * s)\<close> with the single
  factor \<^verbatim>\<open>s = Math.min(D / width, D / height)\<close>, every quotient and product rounded
  to a double. The longer of these sides is exactly \<open>D\<close>, and each is within
  \<open>1/2 + 2\<^sup>-\<^sup>3\<^sup>8\<close> of the side scaled by the exact factor \<open>min(D/width, D/height)\<close>,
  so the aspect ratio is preserved within rounding. The output has these dimensions
  unless it is the size phase's last encoding at \<^verbatim>\<open>Math.round(width * 0.7)\<close> pixels of
  width, and its longer side is at most \<open>D\<close> in either case.
\<close>

theorem normalizer_dimensions:
  assumes pos: "0 < imgWidth img" "0 < imgHeight img"
    and range: "imgWidth img < 2 ^ 31" "imgHeight img < 2 ^ 31"
    and big: "MAX_IMAGE_DIMENSION < imgWidth img \<or> MAX_IMAGE_DIMENSION < imgHeight img"
    and ret: "resizeIfNeeded png img = Inr out"
  defines "s \<equiv> min (fl (of_int MAX_IMAGE_DIMENSION / of_int (imgWidth img)))
                     (fl (of_int MAX_IMAGE_DIMENSION / of_int (imgHeight img)))"
    and "t \<equiv> min (of_int MAX_IMAGE_DIMENSION / of_int (imgWidth img))
                   (of_int MAX_IMAGE_DIMENSION / of_int (imgHeight img)) :: rat"
  shows "\<exists>cur. enforceDimensions png img = Inr cur
           \<and> imgWidth cur = mathRound (fl (of_int (imgWidth img) * s))
           \<and> imgHeight cur = mathRound (fl (of_int (imgHeight img) * s))
           \<and> max (imgWidth cur) (imgHeight cur) = MAX_IMAGE_DIMENSION
           \<and> \<bar>of_int (imgWidth cur) - of_int (imgWidth img) * t\<bar> \<le> 1 / 2 + 1 / 2 ^ 38
           \<and> \<bar>of_int (imgHeight cur) - of_int (imgHeight img) * t\<bar> \<le> 1 / 2 + 1 / 2 ^ 38
           \<and> (out = lastResort png cur
                \<or> (imgWidth out = imgWidth cur \<and> imgHeight out = imgHeight cur))
           \<and> max (imgWidth out) (imgHeight out) \<le> MAX_IMAGE_DIMENSION"
proof -
  have s: "s = scaleFactor (imgWidth img) (imgHeight img)"
    unfolding s_def using pos by (simp add: scaleFactor_def)
  let ?w = "mathRound (fl (of_int (imgWidth img) * s))"
  let ?h = "mathRound (fl (of_int (imgHeight img) * s))"
  from ret obtain cur where dim: "enforceDimensions png img = Inr cur"
    by (auto simp: resizeIfNeeded_def split: sum.splits)
  with big have rb: "resizeBoth png ?w ?h img = Inr cur"
    by (auto simp: enforceDimensions_def Let_def s)
  then have sides: "imgWidth cur = ?w" "imgHeight cur = ?h" and cpos: "0 < ?w" "0 < ?h"
    by (auto simp: resizeBoth_def split: if_splits)
  have mx: "max (imgWidth cur) (imgHeight cur) = MAX_IMAGE_DIMENSION"
    using scaled_sides[OF pos big] by (simp add: sides s)
  note e = exact_sides[OF pos big, folded t_def]
  have nw: "\<bar>fl (of_int (imgWidth img) * s) - of_int (imgWidth img) * t\<bar> \<le> 1 / 2 ^ 38"
    unfolding s t_def by (rule scaled_side[OF pos pos(1) e(1)[unfolded t_def]])
  have nh: "\<bar>fl (of_int (imgHeight img) * s) - of_int (imgHeight img) * t\<bar> \<le> 1 / 2 ^ 38"
    unfolding s t_def by (rule scaled_side[OF pos pos(2) e(2)[unfolded t_def]])
  have dw: "\<bar>of_int (imgWidth cur) - of_int (imgWidth img) * t\<bar> \<le> 1 / 2 + 1 / 2 ^ 38"
    using nw mathRound_near[of "fl (of_int (imgWidth img) * s)"] unfolding sides by linarith
  have dh: "\<bar>of_int (imgHeight cur) - of_int (imgHeight img) * t\<bar> \<le> 1 / 2 + 1 / 2 ^ 38"
    using nh mathRound_near[of "fl (of_int (imgHeight img) * s)"] unfolding sides by linarith
  have cw: "0 < imgWidth cur" and ch: "0 < imgHeight cur" using cpos sides by simp_all
  have out: "out = (case firstWithin (encodingsTried png cur) of
                      Some c \<Rightarrow> c | None \<Rightarrow> lastResort png cur)"
    using ret enforceBytes_result[OF cw, of png] by (simp add: resizeIfNeeded_def dim)
  have cases: "out = lastResort png cur
               \<or> (imgWidth out = imgWidth cur \<and> imgHeight out = imgHeight cur)"
  proof (cases "firstWithin (encodingsTried png cur)")
    case None
    then show ?thesis by (simp add: out)
  next
    case (Some c)
    then have "c \<in> set (encodingsTried png cur)" using firstWithin_Some by blast
    then show ?thesis using encodingsTried_sides Some by (auto simp: out)
  qed
  have lw: "imgWidth (lastResort png cur) \<le> imgWidth cur"
    using mathRound_seven_tenths_le[OF cw] by (simp add: lastResort_def Let_def)
  have lh: "imgHeight (lastResort png cur) \<le> imgHeight cur"
    using autoHeight_le[OF cw ch _ mathRound_seven_tenths_le[OF cw]]
      mathRound_seven_tenths[OF cw]
    by (simp add: lastResort_def Let_def)
  have bound: "max (imgWidth out) (imgHeight out) \<le> MAX_IMAGE_DIMENSION"
    using cases lw lh mx by auto
  show ?thesis
    using dim sides mx cases bound dw dh by blast
qed

theorem normalizer_dimensions_witness:
  "0 < imgWidth longPage \<and> 0 < imgHeight longPage \<and>
   imgWidth longPage < 2 ^ 31 \<and> imgHeight longPage < 2 ^ 31 \<and>
   (MAX_IMAGE_DIMENSION < imgWidth longPage \<or> MAX_IMAGE_DIMENSION < imgHeight longPage) \<and>
   resizeIfNeeded flatPng longPage
     = Inr \<lparr>imgWidth = 480, imgHeight = 7800, byteLength = 37440\<rparr> \<and>
   (\<exists>cur. enforceDimensions flatPng longPage = Inr cur
      \<and> max (imgWidth cur) (imgHeight cur) = MAX_IMAGE_DIMENSION
      \<and> \<bar>of_int (imgWidth cur) - 480 :: rat\<bar> \<le> 1 / 2 + 1 / 2 ^ 38
      \<and> \<bar>of_int (imgHeight cur) - 7800 :: rat\<bar> \<le> 1 / 2 + 1 / 2 ^ 38
      \<and> max (480 :: int) 7800 \<le> MAX_IMAGE_DIMENSION)"
proof -
  have p: "0 < imgWidth longPage" "0 < imgHeight longPage"
    and r: "imgWidth longPage < 2 ^ 31" "imgHeight longPage < 2 ^ 31"
    and b: "MAX_IMAGE_DIMENSION < imgWidth longPage \<or> MAX_IMAGE_DIMENSION < imgHeight longPage"
    by (simp_all add: longPage_def MAX_IMAGE_DIMENSION_def)
  have t: "min (of_int MAX_IMAGE_DIMENSION / of_int (imgWidth longPage))
               (of_int MAX_IMAGE_DIMENSION / of_int (imgHeight longPage)) = (1 / 3 :: rat)"
    "of_int (imgWidth longPage) * (1 / 3 :: rat) = 480"
    "of_int (imgHeight longPage) * (1 / 3 :: rat) = 7800"
    by (simp_all add: longPage_def MAX_IMAGE_DIMENSION_def)
  from normalizer_dimensions[OF p r b demo_longPage(2)] p r b show ?thesis
    by (auto simp: t demo_longPage)
qed

section \<open>Parsing the provider's answer\<close>



text \<open>
  A document that fits the schema validates, and the properties the schema does not
  name are stripped.
\<close>

lemma safeParse_goodDocument:
  "safeParse goodDocument
   = Some [(''feedback'',
            JObject [(''layoutAndHierarchy'', JString ''clear''), (''typography'', JString ''ok''),
                     (''colorAndContrast'', JString ''low''), (''responsiveness'', JString ''ok''),
                     (''visualPolish'', JString ''fine'')]),
           (''issues'',
            JArray [JObject [(''severity'', JString ''warning''), (''category'', JString ''color''),
                             (''description'', JString ''grey on grey''), (''element'', JNull)]]),
           (''goalAssessments'', JArray []),
           (''overallGoalAlignment'', JNumber (145 / 2)),
           (''topRecommendations'', JArray [JString ''raise contrast''])]"
  by (simp add: safeParse_def goodDocument_def PageAnalysisSchema_def DesignFeedbackSchema_def
      IssueSchema_def GoalAssessmentSchema_def zObject_def zField_def zArray_def zString_def
      zEnum_def zNullable_def zNumberBetween_def getProperty_def)

lemmas trim_eval = extractJson_def trim_def trimStart_def trimEnd_def stripLeading.simps
  whiteSpaces_def fenceMatch_def fence_def


text \<open>
  White space beyond ASCII is stripped as well, at both ends and after the opening
  fence.
\<close>

lemma demo_padded:
  "extractJson paddedObject = ''{}''"
  "parseAnalysisResponse tinyParse paddedObject
   = Inr \<lparr>feedback = emptyFeedback [], issues = [], goalAssessments = [],
           overallGoalAlignment = JNull, topRecommendations = [], rawResponse = paddedObject\<rparr>"
proof -
  show e: "extractJson paddedObject = ''{}''"
    by (simp add: paddedObject_def trim_eval)
  show "parseAnalysisResponse tinyParse paddedObject
   = Inr \<lparr>feedback = emptyFeedback [], issues = [], goalAssessments = [],
           overallGoalAlignment = JNull, topRecommendations = [], rawResponse = paddedObject\<rparr>"
    by (simp add: parseAnalysisResponse_def tryParse_def e tinyParse_def safeParse_def
        PageAnalysisSchema_def zObject_def zField_def getProperty_def partialAnalysis_def
        readProperty_def nullish_def arrayOrEmpty_def)
qed

lemma demo_fenced: "extractJson fencedNull = ''null''"
  by (simp add: fencedNull_def trim_eval)



end
